theory Spec2Isabelle
  imports Main "HOL-Library.Sublist" "HOL-Library.Char_ord" "HOL-Library.List_Lexorder"
begin

section \<open>The property tree\<close>

text \<open>
  The binding in \<^verbatim>\<open>proptree.cpp\<close> wraps \<^verbatim>\<open>boost::property_tree::ptree\<close>: a node holds
  a data string and its children, a Boost.MultiIndex container of (key, subtree) pairs with
  two indices over the same elements. The sequenced index is the storage order (the one
  \<^verbatim>\<open>begin()\<close>, \<^verbatim>\<open>end()\<close>, \<^verbatim>\<open>push_back\<close>, \<^verbatim>\<open>insert\<close> and \<^verbatim>\<open>operator==\<close> use). The ordered
  non-unique index by key (the one \<^verbatim>\<open>find\<close>, \<^verbatim>\<open>count\<close> and \<^verbatim>\<open>erase(key)\<close> use) keeps
  children of one key in the order in which they were inserted, whatever their position in
  the sequence. An entry therefore carries, next to its key and subtree, a sequence number
  \<open>seq\<close> that grows with every insertion into the node: among the children of one key the
  ordered index lists the smaller number first. Copying a tree copies both indices.
\<close>

datatype ptree = Ptree (data: string) (children: "(string \<times> ptree \<times> nat) list")

type_synonym entry = "string \<times> ptree \<times> nat"

definition key :: "entry \<Rightarrow> string" where
  "key e = fst e"

definition subtree :: "entry \<Rightarrow> ptree" where
  "subtree e = fst (snd e)"

definition seq :: "entry \<Rightarrow> nat" where
  "seq e = snd (snd e)"

text \<open>\<^verbatim>\<open>ptree()\<close> and \<^verbatim>\<open>ptree(data)\<close>: a node without children.\<close>

definition ptree_empty :: ptree where
  "ptree_empty = Ptree [] []"


text \<open>The exceptions the binding raises.\<close>

datatype pyerr =
    ValueError
  | KeyError
  | IndexError
  | TypeError
  | AttributeError
  | OverflowError
  | BadDataError
  | BadPathError
  | JSONParserError

subsection \<open>Counting and erasing by key\<close>

text \<open>
  \<^verbatim>\<open>ptree::count(key)\<close> counts the entries of the ordered index with that key;
  \<^verbatim>\<open>ptree::erase(key)\<close> unlinks each of them and returns how many there were. The other
  entries stay linked as they were.
\<close>

fun count_entries :: "string \<Rightarrow> entry list \<Rightarrow> nat" where
  "count_entries k [] = 0"
| "count_entries k (e # es) = (if key e = k then Suc (count_entries k es) else count_entries k es)"

fun erase_entries :: "string \<Rightarrow> entry list \<Rightarrow> nat \<times> entry list" where
  "erase_entries k [] = (0, [])"
| "erase_entries k (e # es) =
     (let (n, es') = erase_entries k es
      in if key e = k then (Suc n, es') else (n, e # es'))"

definition ptree_count :: "string \<Rightarrow> ptree \<Rightarrow> nat" where
  "ptree_count k t = count_entries k (children t)"

definition ptree_erase :: "string \<Rightarrow> ptree \<Rightarrow> nat \<times> ptree" where
  "ptree_erase k t = (let (n, es) = erase_entries k (children t) in (n, Ptree (data t) es))"

text \<open>
  \<^verbatim>\<open>PyPropertyTree_count\<close> and \<^verbatim>\<open>PyPropertyTree_erase\<close> pass the key on and return the
  number as a Python int; \<open>erase\<close> also returns the tree as it is afterwards.
\<close>

definition PyPropertyTree_count :: "ptree \<Rightarrow> string \<Rightarrow> int" where
  "PyPropertyTree_count self k = int (ptree_count k self)"

definition PyPropertyTree_erase :: "ptree \<Rightarrow> string \<Rightarrow> int \<times> ptree" where
  "PyPropertyTree_erase self k = (let (n, self') = ptree_erase k self in (int n, self'))"

subsection \<open>The two indices\<close>

text \<open>
  \<^verbatim>\<open>ptree::find(key)\<close> asks the ordered index, which answers with the first entry of
  that key in its own order: the one inserted first, at whatever position of the sequence
  it is. The result is the position in the sequence, \<open>None\<close> standing for
  \<^verbatim>\<open>not_found()\<close>.
\<close>

definition positions :: "string \<Rightarrow> entry list \<Rightarrow> nat list" where
  "positions k es = filter (\<lambda>i. key (es ! i) = k) [0..<length es]"

definition first_inserted :: "entry list \<Rightarrow> nat \<Rightarrow> nat list \<Rightarrow> nat" where
  "first_inserted es i js = fold (\<lambda>j best. if seq (es ! j) < seq (es ! best) then j else best) js i"

definition ptree_find :: "string \<Rightarrow> ptree \<Rightarrow> nat option" where
  "ptree_find k t =
     (case positions k (children t) of
        [] \<Rightarrow> None
      | i # js \<Rightarrow> Some (first_inserted (children t) i js))"

text \<open>The sequence number of the next insertion: larger than every one in use.\<close>

definition next_seq :: "entry list \<Rightarrow> nat" where
  "next_seq es = fold (\<lambda>e n. max n (Suc (seq e))) es 0"

text \<open>
  \<^verbatim>\<open>push_back\<close> links the pair at the end of the sequence, \<^verbatim>\<open>insert(where, pair)\<close>
  before position \<open>where\<close>, \<^verbatim>\<open>erase(iterator)\<close> unlinks one entry. \<open>set_subtree\<close> is a
  write through \<^verbatim>\<open>iterator->second\<close>: the entry keeps its key and its place in both
  indices.
\<close>

definition ptree_push_back :: "string \<times> ptree \<Rightarrow> ptree \<Rightarrow> ptree" where
  "ptree_push_back kv t =
     Ptree (data t) (children t @ [(fst kv, snd kv, next_seq (children t))])"


definition ptree_erase_at :: "nat \<Rightarrow> ptree \<Rightarrow> ptree" where
  "ptree_erase_at i t = Ptree (data t) (take i (children t) @ drop (Suc i) (children t))"

definition set_subtree :: "nat \<Rightarrow> ptree \<Rightarrow> ptree \<Rightarrow> ptree" where
  "set_subtree i c t =
     Ptree (data t) ((children t)[i := (key (children t ! i), c, seq (children t ! i))])"

text \<open>
  A pointer to a node inside a tree is the list of sequence positions that leads to it
  from the root.
\<close>

fun node_at :: "nat list \<Rightarrow> ptree \<Rightarrow> ptree option" where
  "node_at [] t = Some t"
| "node_at (i # pos) t =
     (if i < length (children t) then node_at pos (subtree (children t ! i)) else None)"

fun update_at :: "nat list \<Rightarrow> (ptree \<Rightarrow> ptree) \<Rightarrow> ptree \<Rightarrow> ptree" where
  "update_at [] f t = f t"
| "update_at (i # pos) f t =
     (if i < length (children t)
      then set_subtree i (update_at pos f (subtree (children t ! i))) t
      else t)"

subsection \<open>Paths\<close>

text \<open>
  \<^verbatim>\<open>string_path\<close> with the separator \<^verbatim>\<open>'.'\<close>: the path is the part of the string not
  yet consumed. \<^verbatim>\<open>reduce()\<close> returns the text up to the next separator and moves past
  that separator; \<^verbatim>\<open>single()\<close> holds when no separator is left. The keys are strings,
  so the translator of \<^verbatim>\<open>reduce()\<close> is the identity and never fails. The library's
  \<^verbatim>\<open>BOOST_ASSERT\<close>s on an empty path are not compiled into a build with \<^verbatim>\<open>NDEBUG\<close>,
  the way Python builds its extensions, and \<^verbatim>\<open>reduce()\<close> then returns the empty key.
\<close>

definition path_sep :: char where
  "path_sep = CHR ''.''"

definition path_empty :: "string \<Rightarrow> bool" where
  "path_empty p = (p = [])"

definition path_single :: "string \<Rightarrow> bool" where
  "path_single p = (path_sep \<notin> set p)"

definition path_reduce :: "string \<Rightarrow> string \<times> string" where
  "path_reduce p =
     (takeWhile (\<lambda>c. c \<noteq> path_sep) p, drop 1 (dropWhile (\<lambda>c. c \<noteq> path_sep) p))"

lemma path_reduce_shorter: "p \<noteq> [] \<Longrightarrow> length (snd (path_reduce p)) < length p"
proof -
  assume p: "p \<noteq> []"
  define r where "r = dropWhile (\<lambda>c. c \<noteq> path_sep) p"
  have le: "length r \<le> length p"
    unfolding r_def by (rule length_dropWhile_le)
  have s: "snd (path_reduce p) = drop 1 r"
    by (simp add: path_reduce_def r_def)
  show ?thesis
  proof (cases r)
    case Nil
    then show ?thesis using p s by simp
  next
    case (Cons c cs)
    then show ?thesis using le s by simp
  qed
qed

text \<open>
  \<^verbatim>\<open>walk_path\<close>: the node a path leads to, as its position, or \<open>None\<close> where the
  library returns the null pointer.
\<close>

function walk_path :: "string \<Rightarrow> ptree \<Rightarrow> nat list option" where
  "walk_path p t =
     (if path_empty p then Some []
      else
        (case ptree_find (fst (path_reduce p)) t of
           None \<Rightarrow> None
         | Some i \<Rightarrow>
             map_option ((#) i) (walk_path (snd (path_reduce p)) (subtree (children t ! i)))))"
  by pat_completeness auto
termination
  by (relation "measure (\<lambda>(p, t). length p)") (auto simp: path_reduce_shorter path_empty_def)

declare walk_path.simps [simp del]

text \<open>
  \<^verbatim>\<open>force_path\<close> walks to the parent of the last fragment, creating an empty child where
  one is missing, and returns a reference to that parent, through which the caller then
  writes. Here the caller's write \<open>f\<close> is passed in: it gets the rest of the path and the
  parent, and returns the parent as written together with the position, inside the
  parent, of the node it wrote.
\<close>

function force_path ::
  "string \<Rightarrow> (string \<Rightarrow> ptree \<Rightarrow> ptree \<times> nat list) \<Rightarrow> ptree \<Rightarrow> ptree \<times> nat list" where
  "force_path p f t =
     (if path_single p then f p t
      else
        (case ptree_find (fst (path_reduce p)) t of
           Some i \<Rightarrow>
             (let (c, pos) = force_path (snd (path_reduce p)) f (subtree (children t ! i))
              in (set_subtree i c t, i # pos))
         | None \<Rightarrow>
             (let (c, pos) = force_path (snd (path_reduce p)) f ptree_empty
              in (ptree_push_back (fst (path_reduce p), c) t, length (children t) # pos))))"
  by pat_completeness auto
termination
proof (relation "measure (\<lambda>(p, f, t). length p)")
  show "wf (measure (\<lambda>(p, f, t). length p))" by simp
next
  fix p :: string and f :: "string \<Rightarrow> ptree \<Rightarrow> ptree \<times> nat list" and t :: ptree and i :: nat
  assume "\<not> path_single p"
  then have "p \<noteq> []" by (auto simp: path_single_def)
  then show "((snd (path_reduce p), f, subtree (children t ! i)), p, f, t)
      \<in> measure (\<lambda>(p, f, t). length p)"
    by (simp add: path_reduce_shorter)
next
  fix p :: string and f :: "string \<Rightarrow> ptree \<Rightarrow> ptree \<times> nat list" and t :: ptree
  assume "\<not> path_single p"
  then have "p \<noteq> []" by (auto simp: path_single_def)
  then show "((snd (path_reduce p), f, ptree_empty), p, f, t) \<in> measure (\<lambda>(p, f, t). length p)"
    by (simp add: path_reduce_shorter)
qed

declare force_path.simps [simp del]

text \<open>
  \<^verbatim>\<open>get_child\<close> throws \<^verbatim>\<open>ptree_bad_path\<close> where the walk finds nothing. \<^verbatim>\<open>put_child\<close>
  replaces the child the last fragment finds in the parent, or appends one;
  \<^verbatim>\<open>add_child\<close> always appends.
\<close>

definition ptree_get_child :: "string \<Rightarrow> ptree \<Rightarrow> pyerr + nat list" where
  "ptree_get_child path t =
     (case walk_path path t of None \<Rightarrow> Inl BadPathError | Some pos \<Rightarrow> Inr pos)"

definition put_last :: "ptree \<Rightarrow> string \<Rightarrow> ptree \<Rightarrow> ptree \<times> nat list" where
  "put_last v p parent =
     (case ptree_find (fst (path_reduce p)) parent of
        Some i \<Rightarrow> (set_subtree i v parent, [i])
      | None \<Rightarrow>
          (ptree_push_back (fst (path_reduce p), v) parent, [length (children parent)]))"


definition ptree_put_child :: "string \<Rightarrow> ptree \<Rightarrow> ptree \<Rightarrow> ptree \<times> nat list" where
  "ptree_put_child path v t = force_path path (put_last v) t"


section \<open>The binding\<close>

text \<open>
  The Python values the binding tells apart, in the order in which it tests for them:
  \<^verbatim>\<open>None\<close>; a \<^verbatim>\<open>bool\<close>; an \<^verbatim>\<open>int\<close>, with the \<^verbatim>\<open>str()\<close> of the type \<^verbatim>\<open>int\<close> itself; a
  \<^verbatim>\<open>float\<close>, given by its C double (of the type \<open>'d\<close>) and by the text \<^verbatim>\<open>str()\<close>
  returns for it; any other object that passes
  \<^verbatim>\<open>PyNumber_Check\<close>, given by the UTF-8 bytes of what \<^verbatim>\<open>str()\<close> returns for it, \<open>None\<close>
  when \<^verbatim>\<open>str()\<close> raises or returns a text that has no UTF-8 encoding; a \<^verbatim>\<open>str\<close>, given
  by its UTF-8 bytes; a \<^verbatim>\<open>str\<close> that has no UTF-8 encoding (one with a lone surrogate);
  an instance of \<^verbatim>\<open>proptree.Tree\<close> (of the type \<open>'t\<close>: the tree it points to, or the
  pointer); and any other object.
\<close>

datatype ('d, 't) pyobj =
    Py_None
  | PyBool bool
  | PyLong int
  | PyFloat 'd string
  | PyNumber "string option"
  | PyUnicode string
  | PyUnencodable
  | PyTree 't
  | PyObject

text \<open>
  The format unit \<^verbatim>\<open>i\<close> of \<^verbatim>\<open>PyArg_ParseTupleAndKeywords\<close>: a Python int is stored into
  a C \<^verbatim>\<open>int\<close> of 32 bits, and the call fails with \<^verbatim>\<open>OverflowError\<close> when it does not fit.
  \<open>int_cast\<close> is the conversion of a wider integer to \<^verbatim>\<open>int\<close>, which keeps the low 32
  bits.
\<close>

definition parse_i :: "int \<Rightarrow> pyerr + int" where
  "parse_i i = (if - (2 ^ 31) \<le> i \<and> i < 2 ^ 31 then Inr i else Inl OverflowError)"

definition int_cast :: "int \<Rightarrow> int" where
  "int_cast i = (i + 2 ^ 31) mod 2 ^ 32 - 2 ^ 31"

subsection \<open>remove and index\<close>

text \<open>
  \<^verbatim>\<open>PyPropertyTree_remove\<close>: the loop runs an iterator from \<^verbatim>\<open>begin()\<close> and compares
  \<^verbatim>\<open>iter->first\<close>, the key of the entry, with the argument; the first entry that matches
  is erased and \<^verbatim>\<open>None\<close> returned; \<^verbatim>\<open>ValueError\<close> if the loop ends.
\<close>

fun remove_loop :: "string \<Rightarrow> entry list \<Rightarrow> nat \<Rightarrow> nat option" where
  "remove_loop key_std [] i = None"
| "remove_loop key_std (e # es) i =
     (if key e = key_std then Some i else remove_loop key_std es (Suc i))"

definition PyPropertyTree_remove :: "ptree \<Rightarrow> string \<Rightarrow> (pyerr + unit) \<times> ptree" where
  "PyPropertyTree_remove self key_std =
     (case remove_loop key_std (children self) 0 of
        Some i \<Rightarrow> (Inr (), ptree_erase_at i self)
      | None \<Rightarrow> (Inl ValueError, self))"

text \<open>
  \<^verbatim>\<open>PyPropertyTree_index\<close>: \<open>start\<close> defaults to 0 and \<open>end\<close> to the number of children,
  stored in a C int; an argument that is passed is parsed with the format \<^verbatim>\<open>i\<close>,
  \<open>start\<close> before \<open>end\<close>. \<open>index\<close> never exceeds the number of children. The first
  loop moves the iterator to \<open>start\<close>, the second compares \<^verbatim>\<open>iter->first\<close> with the
  argument up to \<open>end\<close>; running into \<^verbatim>\<open>end()\<close> in either loop, or leaving the second
  one, is the \<^verbatim>\<open>ValueError\<close>. The iterator is the rest of the child list.
\<close>

fun index_skip :: "int \<Rightarrow> int \<Rightarrow> entry list \<Rightarrow> (int \<times> entry list) option" where
  "index_skip index start [] = (if index < start then None else Some (index, []))"
| "index_skip index start (e # es) =
     (if index < start then index_skip (index + 1) start es else Some (index, e # es))"

fun index_scan :: "string \<Rightarrow> int \<Rightarrow> int \<Rightarrow> entry list \<Rightarrow> int option" where
  "index_scan key_std index finish [] = None"
| "index_scan key_std index finish (e # es) =
     (if index < finish
      then (if key e = key_std then Some index else index_scan key_std (index + 1) finish es)
      else None)"

definition PyPropertyTree_index ::
  "ptree \<Rightarrow> string \<Rightarrow> int option \<Rightarrow> int option \<Rightarrow> (pyerr + int) \<times> ptree" where
  "PyPropertyTree_index self key_std start_arg end_arg =
     (case (case start_arg of None \<Rightarrow> Inr 0 | Some s \<Rightarrow> parse_i s) of
        Inl exc \<Rightarrow> (Inl exc, self)
      | Inr start \<Rightarrow>
          (case (case end_arg of
                   None \<Rightarrow> Inr (int_cast (int (length (children self))))
                 | Some e \<Rightarrow> parse_i e) of
             Inl exc \<Rightarrow> (Inl exc, self)
           | Inr finish \<Rightarrow>
               (case index_skip 0 start (children self) of
                  None \<Rightarrow> (Inl ValueError, self)
                | Some (index, iter) \<Rightarrow>
                    (case index_scan key_std index finish iter of
                       None \<Rightarrow> (Inl ValueError, self)
                     | Some i \<Rightarrow> (Inr i, self)))))"

subsection \<open>Membership\<close>



subsection \<open>Writing JSON\<close>




subsection \<open>Comparison\<close>

text \<open>
  \<^verbatim>\<open>ptree::operator==\<close> compares the sizes, the data and then the sequences entry by
  entry, each entry by its key and, recursively, its subtree.
\<close>

fun ptree_eq :: "ptree \<Rightarrow> ptree \<Rightarrow> bool"
  and entries_eq :: "entry list \<Rightarrow> entry list \<Rightarrow> bool" where
  "ptree_eq (Ptree d es) (Ptree d' es') = (length es = length es' \<and> d = d' \<and> entries_eq es es')"
| "entries_eq [] [] = True"
| "entries_eq ((k, c, n) # es) ((k', c', n') # es') = (k = k' \<and> ptree_eq c c' \<and> entries_eq es es')"
| "entries_eq [] (e' # es') = False"
| "entries_eq (e # es) [] = False"

text \<open>
  The node of the spec's data model: a value and an ordered sequence of (key, child)
  pairs. \<open>node_of\<close> forgets the order of the second index.
\<close>

datatype node = Node string "(string \<times> node) list"

fun node_of :: "ptree \<Rightarrow> node" where
  "node_of (Ptree d es) = Node d (map (\<lambda>(k, c, n). (k, node_of c)) es)"

datatype cmp_op = Py_LT | Py_LE | Py_EQ | Py_NE | Py_GT | Py_GE

datatype cmp_result = Py_True | Py_False | Py_NotImplemented

text \<open>
  What the C++ side supplies for \<^verbatim>\<open>get_value<T>()\<close>: the library's stream translators
  from the data string to \<^verbatim>\<open>bool\<close>, \<^verbatim>\<open>long\<close> and \<^verbatim>\<open>double\<close> (\<open>None\<close> where the string
  does not parse), and the comparison of two doubles. They are parameters of the model.
\<close>

record 'd ctypes =
  to_bool :: "string \<Rightarrow> bool option"
  to_long :: "string \<Rightarrow> int option"
  to_double :: "string \<Rightarrow> 'd option"
  double_cmp :: "cmp_op \<Rightarrow> 'd \<Rightarrow> 'd \<Rightarrow> bool"

text \<open>\<^verbatim>\<open>get_value<T>()\<close> throws \<^verbatim>\<open>ptree_bad_data\<close> when the translator fails.\<close>

definition get_value :: "(string \<Rightarrow> 'a option) \<Rightarrow> ptree \<Rightarrow> pyerr + 'a" where
  "get_value tr t = (case tr (data t) of None \<Rightarrow> Inl BadDataError | Some v \<Rightarrow> Inr v)"

text \<open>
  What a function of the binding hands back to the interpreter: a value, together with the
  error indicator as the function leaves it (\<open>None\<close> when it is clear), or the null
  result with the exception raised. The binding never looks at the indicator after
  \<^verbatim>\<open>PyLong_AsLong\<close> or \<^verbatim>\<open>PyLong_AsSsize_t\<close>, so an error these set stays pending next to the
  value returned.
\<close>

datatype 'a outcome = Returns 'a "pyerr option" | Raises pyerr

text \<open>
  \<^verbatim>\<open>PyLong_AsLong\<close> and \<^verbatim>\<open>PyLong_AsSsize_t\<close> on a Python int, both types of 64 bits: the
  value, or \<open>-1\<close> and a pending \<^verbatim>\<open>OverflowError\<close> for an int out of range.
\<close>

definition PyLong_AsLong :: "int \<Rightarrow> int \<times> pyerr option" where
  "PyLong_AsLong i = (if - (2 ^ 63) \<le> i \<and> i < 2 ^ 63 then (i, None) else (- 1, Some OverflowError))"


text \<open>The C++ operator a \<^verbatim>\<open>Py_*\<close> constant stands for, on an ordered type.\<close>

definition ord_cmp :: "cmp_op \<Rightarrow> 'a::ord \<Rightarrow> 'a \<Rightarrow> bool" where
  "ord_cmp op a b =
     (case op of
        Py_LT \<Rightarrow> a < b
      | Py_LE \<Rightarrow> a \<le> b
      | Py_EQ \<Rightarrow> a = b
      | Py_NE \<Rightarrow> a \<noteq> b
      | Py_GE \<Rightarrow> b \<le> a
      | Py_GT \<Rightarrow> b < a)"

text \<open>
  One \<^verbatim>\<open>switch (op)\<close> of the comparison: each of its six cases first evaluates its left
  operand, which may throw, then compares and returns \<^verbatim>\<open>True\<close>, or breaks and falls
  through to the \<^verbatim>\<open>Py_RETURN_FALSE\<close> at the end. \<open>pending\<close> is the error indicator as the
  conversion of the operand left it; the \<^verbatim>\<open>BadDataError\<close> set in the handler replaces it.
\<close>

definition switch_op ::
  "(cmp_op \<Rightarrow> 'a \<Rightarrow> 'a \<Rightarrow> bool) \<Rightarrow> cmp_op \<Rightarrow> pyerr + 'a \<Rightarrow> 'a \<Rightarrow> pyerr option \<Rightarrow>
   cmp_result outcome" where
  "switch_op cmp op lhs v pending =
     (case op of
        Py_LT \<Rightarrow> (case lhs of Inl e \<Rightarrow> Raises e
                  | Inr x \<Rightarrow> Returns (if cmp Py_LT x v then Py_True else Py_False) pending)
      | Py_LE \<Rightarrow> (case lhs of Inl e \<Rightarrow> Raises e
                  | Inr x \<Rightarrow> Returns (if cmp Py_LE x v then Py_True else Py_False) pending)
      | Py_EQ \<Rightarrow> (case lhs of Inl e \<Rightarrow> Raises e
                  | Inr x \<Rightarrow> Returns (if cmp Py_EQ x v then Py_True else Py_False) pending)
      | Py_NE \<Rightarrow> (case lhs of Inl e \<Rightarrow> Raises e
                  | Inr x \<Rightarrow> Returns (if cmp Py_NE x v then Py_True else Py_False) pending)
      | Py_GE \<Rightarrow> (case lhs of Inl e \<Rightarrow> Raises e
                  | Inr x \<Rightarrow> Returns (if cmp Py_GE x v then Py_True else Py_False) pending)
      | Py_GT \<Rightarrow> (case lhs of Inl e \<Rightarrow> Raises e
                  | Inr x \<Rightarrow> Returns (if cmp Py_GT x v then Py_True else Py_False) pending))"

text \<open>
  \<^verbatim>\<open>PyPropertyTree__tp_richcompare\<close>: the operand is tested for a tree, \<^verbatim>\<open>None\<close>, a bool,
  an int, a float and a str, in this order; every \<^verbatim>\<open>ptree_bad_data\<close> thrown inside becomes
  \<^verbatim>\<open>BadDataError\<close>; an operand of no listed type gives \<^verbatim>\<open>False\<close>. An int operand is
  converted with \<^verbatim>\<open>PyLong_AsLong\<close> before the switch, and what that returns is compared,
  whatever error it has set. For a str operand the pointer \<^verbatim>\<open>PyUnicode_AsUTF8AndSize\<close>
  returns goes into \<^verbatim>\<open>std::string(value, value_len)\<close> untested: for a str that has no
  encoding it is null and the length is not set, which is undefined in C++ and \<open>None\<close>
  here.
\<close>

definition PyPropertyTree__tp_richcompare ::
  "'d ctypes \<Rightarrow> ptree \<Rightarrow> ('d, ptree) pyobj \<Rightarrow> cmp_op \<Rightarrow> cmp_result outcome option" where
  "PyPropertyTree__tp_richcompare c self other op =
     (case other of
        PyTree t \<Rightarrow>
          (case op of
             Py_EQ \<Rightarrow> Some (Returns (if ptree_eq self t then Py_True else Py_False) None)
           | Py_NE \<Rightarrow> Some (Returns (if \<not> ptree_eq self t then Py_True else Py_False) None)
           | _ \<Rightarrow> Some (Returns Py_NotImplemented None))
      | Py_None \<Rightarrow>
          (case op of
             Py_EQ \<Rightarrow> Some (Returns (if data self = ''none'' then Py_True else Py_False) None)
           | Py_NE \<Rightarrow> Some (Returns (if data self \<noteq> ''none'' then Py_True else Py_False) None)
           | _ \<Rightarrow> Some (Returns Py_NotImplemented None))
      | PyBool v \<Rightarrow> Some (switch_op ord_cmp op (get_value (to_bool c) self) v None)
      | PyLong i \<Rightarrow>
          Some (switch_op ord_cmp op (get_value (to_long c) self)
                  (fst (PyLong_AsLong i)) (snd (PyLong_AsLong i)))
      | PyFloat v str \<Rightarrow> Some (switch_op (double_cmp c) op (get_value (to_double c) self) v None)
      | PyUnicode v \<Rightarrow> Some (switch_op ord_cmp op (Inr (data self)) v None)
      | PyUnencodable \<Rightarrow> None
      | PyNumber v \<Rightarrow> Some (Returns Py_False None)
      | PyObject \<Rightarrow> Some (Returns Py_False None))"

text \<open>
  Modelled from the spec: section 4.4 says that a boolean parses only from \<open>true\<close> and
  \<open>false\<close>; the translators are the C++ library's and not part of the binding. The
  translators to \<^verbatim>\<open>long\<close> and \<^verbatim>\<open>double\<close>, which the spec does not pin down, reject every
  string here; a comparison with a bool does not consult them.
\<close>

definition bool_only :: "unit ctypes" where
  "bool_only =
     \<lparr>to_bool = (\<lambda>s. if s = ''true'' then Some True else if s = ''false'' then Some False else None),
      to_long = (\<lambda>s. None),
      to_double = (\<lambda>s. None),
      double_cmp = (\<lambda>op a b. False)\<rparr>"

subsection \<open>Scalars to strings\<close>











subsection \<open>Assigning into a node\<close>













subsection \<open>Python objects and the trees they point to\<close>

text \<open>
  A \<^verbatim>\<open>PyPropertyTree\<close> object holds the pointer \<open>obj\<close> to a \<^verbatim>\<open>ptree\<close> and its flags. The
  trees allocated with \<^verbatim>\<open>new\<close> are the cells of the heap, a list indexed by address. A
  pointer is the address of an allocated tree together with the position of a node inside
  it: the empty position for the object that owns the tree, a longer one for the
  references the methods hand out with \<^verbatim>\<open>PTREE_FLAG_OBJECT_NOT_OWNED\<close>. Reading through a
  pointer that leads nowhere is undefined in C++ and \<open>None\<close> here.
\<close>

type_synonym heap = "ptree list"

type_synonym pointer = "nat \<times> nat list"

datatype PyPropertyTree_Flags = PTREE_FLAG_NONE | PTREE_FLAG_OBJECT_NOT_OWNED

record PyPropertyTree =
  obj :: pointer
  flags :: PyPropertyTree_Flags

definition PyPropertyTree_New :: "pointer \<Rightarrow> PyPropertyTree_Flags \<Rightarrow> PyPropertyTree" where
  "PyPropertyTree_New ptree flag = \<lparr>obj = ptree, flags = flag\<rparr>"

definition deref :: "heap \<Rightarrow> pointer \<Rightarrow> ptree option" where
  "deref h p = (if fst p < length h then node_at (snd p) (h ! fst p) else None)"

text \<open>A write through a pointer, and \<^verbatim>\<open>new ptree(t)\<close>.\<close>

definition assign :: "heap \<Rightarrow> pointer \<Rightarrow> (ptree \<Rightarrow> ptree) \<Rightarrow> heap" where
  "assign h p f = h[fst p := update_at (snd p) f (h ! fst p)]"

definition new_ptree :: "heap \<Rightarrow> ptree \<Rightarrow> pointer \<times> heap" where
  "new_ptree h t = ((length h, []), h @ [t])"

text \<open>
  \<^verbatim>\<open>PyPropertyTree__copy__\<close> (a name cannot end in an underscore here): a new object
  that owns a copy of the tree.
\<close>

definition PyPropertyTree__copy :: "heap \<Rightarrow> PyPropertyTree \<Rightarrow> (PyPropertyTree \<times> heap) option" where
  "PyPropertyTree__copy h self =
     (case deref h (obj self) of
        None \<Rightarrow> None
      | Some t \<Rightarrow> (let (p, h') = new_ptree h t in Some (PyPropertyTree_New p PTREE_FLAG_NONE, h')))"

text \<open>
  \<^verbatim>\<open>PyPropertyTree_get\<close>: \<open>py_default\<close> is \<open>None\<close> when the argument is absent. The result
  is a new object that points to the node found, inside the tree of \<open>self\<close>.
\<close>

definition PyPropertyTree_get ::
  "heap \<Rightarrow> PyPropertyTree \<Rightarrow> string \<Rightarrow> ('d, PyPropertyTree) pyobj option \<Rightarrow>
   ((pyerr + ('d, PyPropertyTree) pyobj) \<times> heap) option" where
  "PyPropertyTree_get h self path py_default =
     (case deref h (obj self) of
        None \<Rightarrow> None
      | Some t \<Rightarrow>
          (case ptree_get_child path t of
             Inl exc \<Rightarrow>
               (case py_default of
                  None \<Rightarrow> Some (Inl BadPathError, h)
                | Some d \<Rightarrow> Some (Inr d, h))
           | Inr retval \<Rightarrow>
               Some (Inr (PyTree (PyPropertyTree_New (fst (obj self), snd (obj self) @ retval)
                                    PTREE_FLAG_OBJECT_NOT_OWNED)), h)))"

text \<open>
  \<^verbatim>\<open>PyPropertyTree__nb_or\<close>, behind \<open>left | right\<close>: \<open>retval\<close> owns a copy of the left
  tree, and every child of the right tree is put into it, its key taken as the path. The
  loop writes to the new tree only, so the children of the right tree are the same at
  every step.
\<close>

datatype binary_result = NotImplemented | Result PyPropertyTree

fun or_loop :: "entry list \<Rightarrow> pointer \<Rightarrow> heap \<Rightarrow> heap" where
  "or_loop [] retval h = h"
| "or_loop (e # es) retval h =
     or_loop es retval (assign h retval (\<lambda>t. fst (ptree_put_child (key e) (subtree e) t)))"

definition PyPropertyTree__nb_or ::
  "heap \<Rightarrow> ('d, PyPropertyTree) pyobj \<Rightarrow> ('d, PyPropertyTree) pyobj \<Rightarrow> (binary_result \<times> heap) option" where
  "PyPropertyTree__nb_or h py_left py_right =
     (case py_left of
        PyTree left \<Rightarrow>
          (case py_right of
             PyTree right \<Rightarrow>
               (case deref h (obj left) of
                  None \<Rightarrow> None
                | Some l \<Rightarrow>
                    (case deref h (obj right) of
                       None \<Rightarrow> None
                     | Some r \<Rightarrow>
                         (let (retval, h') = new_ptree h l
                          in Some (Result (PyPropertyTree_New retval PTREE_FLAG_NONE),
                                   or_loop (children r) retval h'))))
           | _ \<Rightarrow> Some (NotImplemented, h))
      | _ \<Rightarrow> Some (NotImplemented, h))"

text \<open>
  \<^verbatim>\<open>PyPropertyTree__nb_inplace_or\<close>, behind \<open>self |= right\<close>: the same loop, writing to the
  tree of \<open>self\<close>. When \<open>right\<close> points into the tree that is written, the iterator sees
  the writes, so each step reads the right tree again; the iterator is the number of
  children already visited.

  \<^verbatim>\<open>put_child\<close> assigns to the node it finds at the end of the path, and the assignment
  destroys what that node held. \<open>replaces\<close> tells when the node \<open>right\<close> points to is
  that node or lies below it: the children the iterator walks are then freed, and the
  next step of the loop reads freed memory. That is undefined in C++ and \<open>None\<close> here. A
  node that \<^verbatim>\<open>put_child\<close> creates is new and holds nothing that could be pointed to.
\<close>

definition replaces :: "pointer \<Rightarrow> ptree \<Rightarrow> nat list \<Rightarrow> pointer \<Rightarrow> bool" where
  "replaces self target pos right =
     (fst self = fst right \<and> node_at pos target \<noteq> None \<and> prefix (snd self @ pos) (snd right))"

partial_function (option) inplace_or_loop :: "heap \<Rightarrow> pointer \<Rightarrow> pointer \<Rightarrow> nat \<Rightarrow> heap option" where
  "inplace_or_loop h self right i =
     (case deref h right of
        None \<Rightarrow> None
      | Some r \<Rightarrow>
          if i < length (children r) then
            (case deref h self of
               None \<Rightarrow> None
             | Some target \<Rightarrow>
                 if replaces self target
                      (snd (ptree_put_child (key (children r ! i)) (subtree (children r ! i)) target))
                      right
                 then None
                 else
                   inplace_or_loop
                     (assign h self
                        (\<lambda>t. fst (ptree_put_child (key (children r ! i)) (subtree (children r ! i)) t)))
                     self right (Suc i))
          else Some h)"

definition PyPropertyTree__nb_inplace_or ::
  "heap \<Rightarrow> PyPropertyTree \<Rightarrow> ('d, PyPropertyTree) pyobj \<Rightarrow> (binary_result \<times> heap) option" where
  "PyPropertyTree__nb_inplace_or h self py_right =
     (case py_right of
        PyTree right \<Rightarrow>
          (case inplace_or_loop h (obj self) (obj right) 0 of
             None \<Rightarrow> None
           | Some h' \<Rightarrow> Some (Result self, h'))
      | _ \<Rightarrow> Some (NotImplemented, h))"

text \<open>
  A comparison as Python sees it: \<open>self\<close> and a tree operand are objects, and the
  comparison reads the trees they point to.
\<close>

definition compare_objects ::
  "'d ctypes \<Rightarrow> heap \<Rightarrow> PyPropertyTree \<Rightarrow> PyPropertyTree \<Rightarrow> cmp_op \<Rightarrow> cmp_result outcome option" where
  "compare_objects c h self other op =
     (case deref h (obj self) of
        None \<Rightarrow> None
      | Some x \<Rightarrow>
          (case deref h (obj other) of
             None \<Rightarrow> None
           | Some y \<Rightarrow> PyPropertyTree__tp_richcompare c x (PyTree y) op))"

text \<open>
  What the spec says a put of a key does: the value replaces the subtree of a child that
  has this key, and becomes a new last child when there is none. The child replaced is the
  one the library finds.
\<close>

definition put_key :: "string \<Rightarrow> ptree \<Rightarrow> ptree \<Rightarrow> ptree" where
  "put_key k v t =
     (case ptree_find k t of
        Some i \<Rightarrow> set_subtree i v t
      | None \<Rightarrow> ptree_push_back (k, v) t)"

text \<open>
  A text cut at every occurrence of a separator: the pieces between the separators, one
  more than there are separators, as \<^verbatim>\<open>str.split\<close> of Python gives them.
\<close>

fun split_on :: "char \<Rightarrow> string \<Rightarrow> string list" where
  "split_on sep [] = [[]]"
| "split_on sep (c # cs) =
     (if c = sep then [] # split_on sep cs
      else (case split_on sep cs of
              [] \<Rightarrow> [[c]]
            | piece # pieces \<Rightarrow> (c # piece) # pieces))"

text \<open>
  What a put at a path means, read off the pieces of the path and not the library's code:
  the last piece is put as a key; every piece before it names the child to go into, the
  one the library finds, or a new, empty last child when there is none.
\<close>

fun put_path :: "string list \<Rightarrow> ptree \<Rightarrow> ptree \<Rightarrow> ptree" where
  "put_path [] v t = t"
| "put_path [k] v t = put_key k v t"
| "put_path (k # k' # ks) v t =
     (case ptree_find k t of
        Some i \<Rightarrow> set_subtree i (put_path (k' # ks) v (subtree (children t ! i))) t
      | None \<Rightarrow> ptree_push_back (k, put_path (k' # ks) v ptree_empty) t)"

text \<open>The tree a merge leaves: every child of \<open>b\<close>, in order, put into \<open>a\<close>.\<close>

definition merged :: "ptree \<Rightarrow> ptree \<Rightarrow> ptree" where
  "merged a b = fold (\<lambda>e t. fst (ptree_put_child (key e) (subtree e) t)) (children b) a"

text \<open>
  Two pointers are apart when neither node is the other or lies inside it: they point into
  different allocations, or their positions part ways.
\<close>

definition apart :: "pointer \<Rightarrow> pointer \<Rightarrow> bool" where
  "apart p q = (fst p \<noteq> fst q \<or> (\<not> prefix (snd p) (snd q) \<and> \<not> prefix (snd q) (snd p)))"

text \<open>
  The keys a path names when it is read, again from its pieces between the dots: none for
  the empty path, and a dot at the very end of the path names nothing after it.
\<close>

definition walk_keys :: "string \<Rightarrow> string list" where
  "walk_keys p =
     (if p = [] then []
      else if last p = CHR ''.'' then butlast (split_on CHR ''.'' p)
      else split_on CHR ''.'' p)"

text \<open>
  What it means for a list of keys to resolve in a tree: every key in turn names the child
  to go to, the one the library finds for it; the result is the position reached. The
  fragments \<^verbatim>\<open>reduce()\<close> takes off a path one after the other relate the library's walk to
  it.
\<close>

fun resolve :: "string list \<Rightarrow> ptree \<Rightarrow> nat list option" where
  "resolve [] t = Some []"
| "resolve (k # ks) t =
     (case ptree_find k t of
        None \<Rightarrow> None
      | Some i \<Rightarrow> map_option ((#) i) (resolve ks (subtree (children t ! i))))"

function path_fragments :: "string \<Rightarrow> string list" where
  "path_fragments p =
     (if path_empty p then [] else fst (path_reduce p) # path_fragments (snd (path_reduce p)))"
  by pat_completeness auto
termination
  by (relation "measure length") (auto simp: path_reduce_shorter path_empty_def)

declare path_fragments.simps [simp del]

text \<open>The keys of the entries along a position.\<close>

fun keys_along :: "nat list \<Rightarrow> ptree \<Rightarrow> string list option" where
  "keys_along [] t = Some []"
| "keys_along (i # pos) t =
     (if i < length (children t)
      then map_option ((#) (key (children t ! i))) (keys_along pos (subtree (children t ! i)))
      else None)"

section \<open>Erase and count\<close>

lemma erase_entries_count: "fst (erase_entries k es) = count_entries k es"
  by (induction es) (auto split: prod.splits)

lemma erase_entries_filter: "snd (erase_entries k es) = filter (\<lambda>e. key e \<noteq> k) es"
  by (induction es) (auto split: prod.splits)

lemma count_entries_filter: "count_entries k es = length (filter (\<lambda>e. key e = k) es)"
  by (induction es) auto

lemma count_entries_erased: "count_entries k (filter (\<lambda>e. key e \<noteq> k) es) = 0"
  by (induction es) auto

text \<open>
  C6. \<open>erase(k)\<close> keeps the data, removes exactly the children whose key is \<open>k\<close> (what is
  left is the old child list filtered by "key differs from \<open>k\<close>", so the others keep
  their relative order), returns what \<open>count(k)\<close> returned before the call, and
  \<open>count(k)\<close> is 0 afterwards.
\<close>

theorem erase_removes_all_with_key:
  "fst (PyPropertyTree_erase t k) = PyPropertyTree_count t k \<and>
   children (snd (PyPropertyTree_erase t k)) = filter (\<lambda>e. key e \<noteq> k) (children t) \<and>
   data (snd (PyPropertyTree_erase t k)) = data t \<and>
   PyPropertyTree_count (snd (PyPropertyTree_erase t k)) k = 0"
proof -
  obtain n es where e: "erase_entries k (children t) = (n, es)"
    by (cases "erase_entries k (children t)")
  have n: "n = count_entries k (children t)"
    using erase_entries_count [of k "children t"] e by simp
  have es: "es = filter (\<lambda>e. key e \<noteq> k) (children t)"
    using erase_entries_filter [of k "children t"] e by simp
  show ?thesis
    using e n es
    by (simp add: PyPropertyTree_erase_def PyPropertyTree_count_def ptree_erase_def
        ptree_count_def count_entries_erased)
qed

theorem erase_removes_all_with_key_witness:
  "PyPropertyTree_count
     (Ptree [] [(''a'', Ptree ''1'' [], 0), (''b'', Ptree ''2'' [], 1), (''b'', Ptree ''3'' [], 2)]) ''b'' = 2 \<and>
   PyPropertyTree_erase
     (Ptree [] [(''a'', Ptree ''1'' [], 0), (''b'', Ptree ''2'' [], 1), (''b'', Ptree ''3'' [], 2)]) ''b'' =
     (2, Ptree [] [(''a'', Ptree ''1'' [], 0)]) \<and>
   PyPropertyTree_count (Ptree [] [(''a'', Ptree ''1'' [], 0)]) ''b'' = 0"
  using erase_removes_all_with_key
    [of "Ptree [] [(''a'', Ptree ''1'' [], 0), (''b'', Ptree ''2'' [], 1), (''b'', Ptree ''3'' [], 2)]" "''b''"]
  by (simp add: PyPropertyTree_erase_def PyPropertyTree_count_def ptree_erase_def ptree_count_def
      key_def)

section \<open>remove\<close>

lemma remove_loop_none: "(\<forall>e\<in>set es. key e \<noteq> k) \<Longrightarrow> remove_loop k es n = None"
  by (induction es arbitrary: n) auto

lemma remove_loop_first:
  "i < length es \<Longrightarrow> key (es ! i) = k \<Longrightarrow> (\<forall>j<i. key (es ! j) \<noteq> k) \<Longrightarrow>
   remove_loop k es n = Some (n + i)"
proof (induction es arbitrary: n i)
  case Nil
  then show ?case by simp
next
  case (Cons e es)
  show ?case
  proof (cases i)
    case 0
    with Cons.prems show ?thesis by simp
  next
    case (Suc i')
    have e: "key e \<noteq> k" using Cons.prems(3) Suc by force
    have "remove_loop k es (Suc n) = Some (Suc n + i')"
    proof (rule Cons.IH)
      show "i' < length es" using Cons.prems(1) Suc by simp
      show "key (es ! i') = k" using Cons.prems(2) Suc by simp
      show "\<forall>j<i'. key (es ! j) \<noteq> k" using Cons.prems(3) Suc by force
    qed
    with e Suc show ?thesis by simp
  qed
qed

text \<open>
  What the loop of \<open>remove\<close> does: it looks at the keys. When the child at position \<open>i\<close>
  is the first one whose key is \<open>k\<close>, it returns \<^verbatim>\<open>None\<close> and the tree is left with the
  same data and the same children but for that one; when no child has the key \<open>k\<close>, it
  raises \<^verbatim>\<open>ValueError\<close> and the tree is unchanged.
\<close>

lemma remove_by_key:
  "(i < length (children t) \<and> key (children t ! i) = k \<and> (\<forall>j<i. key (children t ! j) \<noteq> k) \<longrightarrow>
      PyPropertyTree_remove t k =
        (Inr (), Ptree (data t) (take i (children t) @ drop (Suc i) (children t)))) \<and>
   ((\<forall>e\<in>set (children t). key e \<noteq> k) \<longrightarrow> PyPropertyTree_remove t k = (Inl ValueError, t))"
  by (auto simp: PyPropertyTree_remove_def remove_loop_none ptree_erase_at_def
      dest: remove_loop_first [where n = 0])

lemma remove_by_key_example:
  "PyPropertyTree_remove
     (Ptree [] [(''a'', Ptree ''1'' [], 0), (''b'', Ptree ''2'' [], 1), (''b'', Ptree ''3'' [], 2)]) ''b'' =
     (Inr (), Ptree [] [(''a'', Ptree ''1'' [], 0), (''b'', Ptree ''3'' [], 2)]) \<and>
   PyPropertyTree_remove (Ptree [] [(''a'', Ptree ''1'' [], 0)]) ''z'' =
     (Inl ValueError, Ptree [] [(''a'', Ptree ''1'' [], 0)])"
  using remove_by_key
    [of 1 "Ptree [] [(''a'', Ptree ''1'' [], 0), (''b'', Ptree ''2'' [], 1), (''b'', Ptree ''3'' [], 2)]" "''b''"]
    remove_by_key [of 0 "Ptree [] [(''a'', Ptree ''1'' [], 0)]" "''z''"]
  by (simp add: key_def)

text \<open>
  C1. By its documentation string \<open>remove\<close> is to "Remove the first child whose value
  is equal to key", a \<^verbatim>\<open>ValueError\<close> telling that there is none. The loop compares
  \<^verbatim>\<open>iter->first\<close>, the key of a child, and never reads a value. The only child of this tree has the key \<open>a\<close> and the value
  \<open>1\<close>: \<open>remove("1")\<close> raises \<^verbatim>\<open>ValueError\<close> and leaves the child whose value is \<open>1\<close>
  in place, and \<open>remove("a")\<close> removes it.
\<close>

theorem remove_compares_keys:
  "data (subtree (children (Ptree [] [(''a'', Ptree ''1'' [], 0)]) ! 0)) = ''1'' \<and>
   PyPropertyTree_remove (Ptree [] [(''a'', Ptree ''1'' [], 0)]) ''1'' =
     (Inl ValueError, Ptree [] [(''a'', Ptree ''1'' [], 0)]) \<and>
   PyPropertyTree_remove (Ptree [] [(''a'', Ptree ''1'' [], 0)]) ''a'' = (Inr (), Ptree [] [])"
  by (simp add: PyPropertyTree_remove_def ptree_erase_at_def key_def subtree_def)

section \<open>index\<close>

lemma index_skip_eq:
  "index_skip idx start es =
     (if idx + int (length es) < start then None
      else Some (max idx start, drop (nat (start - idx)) es))"
proof (induction es arbitrary: idx)
  case Nil
  then show ?case by auto
next
  case (Cons e es)
  show ?case
  proof (cases "idx < start")
    case True
    then have "nat (start - idx) = Suc (nat (start - (idx + 1)))" by simp
    then show ?thesis using True Cons.IH [of "idx + 1"] by (simp add: max_def)
  next
    case False
    then show ?thesis by (simp add: max_def)
  qed
qed

lemma index_scan_none:
  "(\<forall>j<length es. idx + int j < finish \<longrightarrow> key (es ! j) \<noteq> k) \<Longrightarrow> index_scan k idx finish es = None"
proof (induction es arbitrary: idx)
  case Nil
  then show ?case by simp
next
  case (Cons e es)
  have "index_scan k (idx + 1) finish es = None"
  proof (rule Cons.IH, intro allI impI)
    fix j assume "j < length es" "idx + 1 + int j < finish"
    then show "key (es ! j) \<noteq> k" using Cons.prems [rule_format, of "Suc j"] by simp
  qed
  moreover have "idx < finish \<Longrightarrow> key e \<noteq> k" using Cons.prems [rule_format, of 0] by simp
  ultimately show ?case by simp
qed

lemma index_scan_first:
  "j < length es \<Longrightarrow> idx + int j < finish \<Longrightarrow> key (es ! j) = k \<Longrightarrow> (\<forall>i<j. key (es ! i) \<noteq> k) \<Longrightarrow>
   index_scan k idx finish es = Some (idx + int j)"
proof (induction es arbitrary: idx j)
  case Nil
  then show ?case by simp
next
  case (Cons e es)
  show ?case
  proof (cases j)
    case 0
    with Cons.prems show ?thesis by simp
  next
    case (Suc j')
    have e: "key e \<noteq> k" using Cons.prems(4) Suc by force
    have lt: "idx < finish" using Cons.prems(2) by simp
    have "index_scan k (idx + 1) finish es = Some (idx + 1 + int j')"
    proof (rule Cons.IH)
      show "j' < length es" using Cons.prems(1) Suc by simp
      show "idx + 1 + int j' < finish" using Cons.prems(2) Suc by simp
      show "key (es ! j') = k" using Cons.prems(3) Suc by simp
      show "\<forall>i<j'. key (es ! i) \<noteq> k" using Cons.prems(4) Suc by force
    qed
    with e lt Suc show ?thesis by simp
  qed
qed

lemma parse_i_in_range: "- (2 ^ 31) \<le> i \<Longrightarrow> i < 2 ^ 31 \<Longrightarrow> parse_i i = Inr i"
  by (simp add: parse_i_def)

lemma parse_i_out_of_range: "i < - (2 ^ 31) \<or> 2 ^ 31 \<le> i \<Longrightarrow> parse_i i = Inl OverflowError"
  by (auto simp: parse_i_def)


text \<open>
  What the loops of \<open>index\<close> do: they look at the keys. With \<open>start\<close> and \<open>finish\<close> the
  bounds in force after parsing (the defaults are 0 and the number of children), the
  method returns the position \<open>i\<close> of the first child at or after \<open>start\<close> whose key is
  \<open>k\<close>, provided \<open>i\<close> is below \<open>finish\<close>; it raises \<^verbatim>\<open>ValueError\<close> when no child in the
  range has the key \<open>k\<close>; the tree is unchanged either way. A bound that does not fit a
  C int is an \<^verbatim>\<open>OverflowError\<close>.
\<close>

lemma index_by_key:
  assumes "(case start_arg of None \<Rightarrow> Inr 0 | Some s \<Rightarrow> parse_i s) = Inr start"
    and "(case end_arg of None \<Rightarrow> Inr (int_cast (int (length (children t)))) | Some e \<Rightarrow> parse_i e) =
         Inr finish"
  shows "(i < length (children t) \<and> start \<le> int i \<and> int i < finish \<and> key (children t ! i) = k \<and>
          (\<forall>j<i. start \<le> int j \<longrightarrow> key (children t ! j) \<noteq> k) \<longrightarrow>
            PyPropertyTree_index t k start_arg end_arg = (Inr (int i), t)) \<and>
         ((\<forall>i<length (children t). start \<le> int i \<and> int i < finish \<longrightarrow> key (children t ! i) \<noteq> k) \<longrightarrow>
            PyPropertyTree_index t k start_arg end_arg = (Inl ValueError, t))"
proof (intro conjI impI)
  define es where "es = children t"
  define n where "n = nat start"
  have idx: "PyPropertyTree_index t k start_arg end_arg =
      (case index_skip 0 start es of
         None \<Rightarrow> (Inl ValueError, t)
       | Some (index, iter) \<Rightarrow>
           (case index_scan k index finish iter of
              None \<Rightarrow> (Inl ValueError, t)
            | Some i \<Rightarrow> (Inr i, t)))"
    unfolding PyPropertyTree_index_def assms es_def by simp
  have skip: "index_skip 0 start es =
      (if int (length es) < start then None else Some (int n, drop n es))"
    by (simp add: index_skip_eq n_def max_def)
  {
    assume a: "i < length (children t) \<and> start \<le> int i \<and> int i < finish \<and> key (children t ! i) = k \<and>
          (\<forall>j<i. start \<le> int j \<longrightarrow> key (children t ! j) \<noteq> k)"
    then have a1: "i < length (children t)" and a2: "start \<le> int i" and a3: "int i < finish"
      and a4: "key (children t ! i) = k"
      and a5: "\<forall>j<i. start \<le> int j \<longrightarrow> key (children t ! j) \<noteq> k"
      by blast+
    have ni: "n \<le> i" using a2 unfolding n_def by linarith
    have "index_scan k (int n) finish (drop n es) = Some (int n + int (i - n))"
    proof (rule index_scan_first)
      show "i - n < length (drop n es)" using a1 ni by (simp add: es_def)
      show "int n + int (i - n) < finish" using a3 ni by simp
      show "key (drop n es ! (i - n)) = k" using a1 a4 ni by (simp add: es_def)
      show "\<forall>j<i - n. key (drop n es ! j) \<noteq> k"
      proof (intro allI impI)
        fix j assume j: "j < i - n"
        then have "n + j < i" by simp
        moreover have "start \<le> int (n + j)" unfolding n_def by linarith
        ultimately have "key (children t ! (n + j)) \<noteq> k" using a5 by blast
        then show "key (drop n es ! j) \<noteq> k" using a1 j by (simp add: es_def)
      qed
    qed
    moreover have "\<not> int (length es) < start" using a1 a2 by (simp add: es_def)
    ultimately show "PyPropertyTree_index t k start_arg end_arg = (Inr (int i), t)"
      using ni by (simp add: idx skip)
  }
  {
    assume a: "\<forall>i<length (children t). start \<le> int i \<and> int i < finish \<longrightarrow> key (children t ! i) \<noteq> k"
    have "index_scan k (int n) finish (drop n es) = None"
    proof (rule index_scan_none, intro allI impI)
      fix j assume j: "j < length (drop n es)" "int n + int j < finish"
      then have "n + j < length (children t)" by (simp add: es_def)
      moreover have "start \<le> int (n + j)" unfolding n_def by linarith
      ultimately have "key (children t ! (n + j)) \<noteq> k" using a j by simp
      then show "key (drop n es ! j) \<noteq> k" using j by (simp add: es_def)
    qed
    then show "PyPropertyTree_index t k start_arg end_arg = (Inl ValueError, t)"
      by (simp add: idx skip)
  }
qed

lemma index_overflow:
  "PyPropertyTree_index t k (Some (2 ^ 31)) end_arg = (Inl OverflowError, t) \<and>
   PyPropertyTree_index t k None (Some (2 ^ 31)) = (Inl OverflowError, t) \<and>
   PyPropertyTree_index t k None (Some (- (2 ^ 31) - 1)) = (Inl OverflowError, t)"
  by (simp add: PyPropertyTree_index_def parse_i_def)

lemma index_by_key_example:
  "PyPropertyTree_index
     (Ptree [] [(''a'', Ptree ''1'' [], 0), (''b'', Ptree ''2'' [], 1), (''b'', Ptree ''3'' [], 2)])
     ''b'' (Some 1) None =
     (Inr 1, Ptree [] [(''a'', Ptree ''1'' [], 0), (''b'', Ptree ''2'' [], 1), (''b'', Ptree ''3'' [], 2)]) \<and>
   PyPropertyTree_index
     (Ptree [] [(''a'', Ptree ''1'' [], 0), (''b'', Ptree ''2'' [], 1), (''b'', Ptree ''3'' [], 2)])
     ''a'' (Some 1) None =
     (Inl ValueError,
      Ptree [] [(''a'', Ptree ''1'' [], 0), (''b'', Ptree ''2'' [], 1), (''b'', Ptree ''3'' [], 2)])"
  using index_by_key
    [where start = 1 and start_arg = "Some 1" and finish = 3 and end_arg = None and i = 1
       and k = "''b''"
       and t = "Ptree [] [(''a'', Ptree ''1'' [], 0), (''b'', Ptree ''2'' [], 1), (''b'', Ptree ''3'' [], 2)]"]
    index_by_key
    [where start = 1 and start_arg = "Some 1" and finish = 3 and end_arg = None and i = 0
       and k = "''a''"
       and t = "Ptree [] [(''a'', Ptree ''1'' [], 0), (''b'', Ptree ''2'' [], 1), (''b'', Ptree ''3'' [], 2)]"]
  by (simp add: key_def less_Suc_eq numeral_3_eq_3 parse_i_def int_cast_def)

text \<open>
  C2. By its documentation string \<open>index\<close> is to "Return zero-based index in the tree
  of the first item whose value is equal to key", between \<open>start\<close> and \<open>end\<close>. The loop
  compares \<^verbatim>\<open>iter->first\<close>, the key of a child, and never reads a value. The only child of this tree
  has the key \<open>a\<close> and the value \<open>1\<close>: \<open>index("1")\<close> raises \<^verbatim>\<open>ValueError\<close> although the
  child at position 0 has the value \<open>1\<close>, and \<open>index("a")\<close> returns 0.
\<close>

theorem index_compares_keys:
  "data (subtree (children (Ptree [] [(''a'', Ptree ''1'' [], 0)]) ! 0)) = ''1'' \<and>
   PyPropertyTree_index (Ptree [] [(''a'', Ptree ''1'' [], 0)]) ''1'' None None =
     (Inl ValueError, Ptree [] [(''a'', Ptree ''1'' [], 0)]) \<and>
   PyPropertyTree_index (Ptree [] [(''a'', Ptree ''1'' [], 0)]) ''a'' None None =
     (Inr 0, Ptree [] [(''a'', Ptree ''1'' [], 0)])"
  by (simp add: PyPropertyTree_index_def key_def subtree_def int_cast_def)

section \<open>Membership\<close>

lemma positions_empty_iff: "positions k es = [] \<longleftrightarrow> (\<forall>e\<in>set es. key e \<noteq> k)"
proof -
  have "positions k es = [] \<longleftrightarrow> (\<forall>i<length es. key (es ! i) \<noteq> k)"
    by (auto simp: positions_def filter_empty_conv)
  also have "\<dots> \<longleftrightarrow> (\<forall>e\<in>set es. key e \<noteq> k)"
    by (simp add: all_set_conv_all_nth)
  finally show ?thesis .
qed

lemma ptree_find_None_iff: "ptree_find k t = None \<longleftrightarrow> (\<forall>e\<in>set (children t). key e \<noteq> k)"
proof -
  have "ptree_find k t = None \<longleftrightarrow> positions k (children t) = []"
    by (simp add: ptree_find_def split: list.splits)
  then show ?thesis by (simp add: positions_empty_iff)
qed




section \<open>Writing JSON\<close>






section \<open>Comparison with a scalar\<close>

lemma switch_op_eq:
  "switch_op cmp op lhs v pending =
     (case lhs of
        Inl e \<Rightarrow> Raises e
      | Inr x \<Rightarrow> Returns (if cmp op x v then Py_True else Py_False) pending)"
  by (cases op; cases lhs; simp add: switch_op_def)

lemma switch_get_value:
  "switch_op cmp op (get_value tr t) v pending =
     (case tr (data t) of
        None \<Rightarrow> Raises BadDataError
      | Some x \<Rightarrow> Returns (if cmp op x v then Py_True else Py_False) pending)"
  by (simp add: switch_op_eq get_value_def split: option.splits)

text \<open>
  C3, as the code has it: with a bool, an int or a float as the operand, each of the six
  comparisons, \<open>==\<close> and \<open>!=\<close> included, first reads the node's data string as a value of
  the operand's type. It raises \<^verbatim>\<open>BadDataError\<close> exactly when the string does not parse.
  When the string parses to \<open>x\<close>, it returns the result of comparing \<open>x\<close> with the
  operand as converted to the C type: the bool, the double of the float, and for an int
  what \<^verbatim>\<open>PyLong_AsLong\<close> returns, which is the int when it fits a C long; for an int that
  does not fit, \<open>x\<close> is compared with \<open>-1\<close> and the \<^verbatim>\<open>OverflowError\<close> of the conversion is
  left pending next to the result.
\<close>

theorem richcompare_bad_data:
  "((PyPropertyTree__tp_richcompare c self (PyBool b) op = Some (Raises BadDataError)) =
      (to_bool c (data self) = None)) \<and>
   ((PyPropertyTree__tp_richcompare c self (PyLong i) op = Some (Raises BadDataError)) =
      (to_long c (data self) = None)) \<and>
   ((PyPropertyTree__tp_richcompare c self (PyFloat f str) op = Some (Raises BadDataError)) =
      (to_double c (data self) = None)) \<and>
   PyPropertyTree__tp_richcompare c self (PyBool b) op =
     (case to_bool c (data self) of
        None \<Rightarrow> Some (Raises BadDataError)
      | Some x \<Rightarrow> Some (Returns (if ord_cmp op x b then Py_True else Py_False) None)) \<and>
   PyPropertyTree__tp_richcompare c self (PyLong i) op =
     (case to_long c (data self) of
        None \<Rightarrow> Some (Raises BadDataError)
      | Some x \<Rightarrow>
          (if - (2 ^ 63) \<le> i \<and> i < 2 ^ 63
           then Some (Returns (if ord_cmp op x i then Py_True else Py_False) None)
           else Some (Returns (if ord_cmp op x (- 1) then Py_True else Py_False)
                        (Some OverflowError)))) \<and>
   PyPropertyTree__tp_richcompare c self (PyFloat f str) op =
     (case to_double c (data self) of
        None \<Rightarrow> Some (Raises BadDataError)
      | Some x \<Rightarrow> Some (Returns (if double_cmp c op x f then Py_True else Py_False) None))"
  by (simp add: PyPropertyTree__tp_richcompare_def switch_get_value PyLong_AsLong_def
      split: option.splits)

text \<open>
  On examples: the booleans as the spec has them, and for the int operands a translator
  to \<^verbatim>\<open>long\<close> that reads the text \<open>-1\<close> and nothing else. The node \<open>-1\<close> compares equal
  to the int \<open>2 ^ 64\<close>, which \<^verbatim>\<open>PyLong_AsLong\<close> turns into \<open>-1\<close>.
\<close>

theorem richcompare_bad_data_witness:
  "PyPropertyTree__tp_richcompare bool_only (Ptree ''true'' []) (PyBool False) Py_GT =
     Some (Returns Py_True None) \<and>
   PyPropertyTree__tp_richcompare bool_only (Ptree ''true'' []) (PyBool False) Py_EQ =
     Some (Returns Py_False None) \<and>
   PyPropertyTree__tp_richcompare bool_only (Ptree ''yes'' []) (PyBool False) Py_GT =
     Some (Raises BadDataError) \<and>
   PyPropertyTree__tp_richcompare bool_only (Ptree ''yes'' []) (PyBool False) Py_NE =
     Some (Raises BadDataError) \<and>
   PyPropertyTree__tp_richcompare bool_only (Ptree ''7'' []) (PyLong 7) Py_LE =
     Some (Raises BadDataError) \<and>
   PyPropertyTree__tp_richcompare
     (bool_only\<lparr>to_long := (\<lambda>s. if s = ''-1'' then Some (- 1) else None)\<rparr>)
     (Ptree ''-1'' []) (PyLong (- 1)) Py_EQ = Some (Returns Py_True None) \<and>
   PyPropertyTree__tp_richcompare
     (bool_only\<lparr>to_long := (\<lambda>s. if s = ''-1'' then Some (- 1) else None)\<rparr>)
     (Ptree ''-1'' []) (PyLong (2 ^ 64)) Py_EQ = Some (Returns Py_True (Some OverflowError))"
  using richcompare_bad_data [where c = bool_only and self = "Ptree ''true'' []" and b = False and op = Py_GT]
    richcompare_bad_data [where c = bool_only and self = "Ptree ''true'' []" and b = False and op = Py_EQ]
    richcompare_bad_data [where c = bool_only and self = "Ptree ''yes'' []" and b = False and op = Py_GT]
    richcompare_bad_data [where c = bool_only and self = "Ptree ''yes'' []" and b = False and op = Py_NE]
    richcompare_bad_data [where c = bool_only and self = "Ptree ''7'' []" and i = 7 and op = Py_LE]
    richcompare_bad_data
      [where c = "bool_only\<lparr>to_long := (\<lambda>s. if s = ''-1'' then Some (- 1) else None)\<rparr>"
         and self = "Ptree ''-1'' []" and i = "- 1" and op = Py_EQ]
    richcompare_bad_data
      [where c = "bool_only\<lparr>to_long := (\<lambda>s. if s = ''-1'' then Some (- 1) else None)\<rparr>"
         and self = "Ptree ''-1'' []" and i = "2 ^ 64" and op = Py_EQ]
  by (simp add: bool_only_def ord_cmp_def)

text \<open>
  The data string \<open>abc\<close> is no boolean: comparing the node with \<^verbatim>\<open>True\<close> by \<open>==\<close> or
  \<open>!=\<close> raises \<^verbatim>\<open>BadDataError\<close>.
\<close>

theorem richcompare_eq_counterexample:
  "to_bool bool_only ''abc'' = None \<and>
   PyPropertyTree__tp_richcompare bool_only (Ptree ''abc'' []) (PyBool True) Py_EQ =
     Some (Raises BadDataError) \<and>
   PyPropertyTree__tp_richcompare bool_only (Ptree ''abc'' []) (PyBool True) Py_NE =
     Some (Raises BadDataError)"
  by (simp add: PyPropertyTree__tp_richcompare_def switch_op_def get_value_def bool_only_def)

section \<open>Assigning scalars\<close>

lemma first_inserted_in: "first_inserted es i js \<in> set (i # js)"
proof (induction js arbitrary: i)
  case Nil
  then show ?case by (simp add: first_inserted_def)
next
  case (Cons j js)
  have "first_inserted es i (j # js) =
        first_inserted es (if seq (es ! j) < seq (es ! i) then j else i) js"
    by (simp add: first_inserted_def)
  then show ?case
    using Cons.IH [of "if seq (es ! j) < seq (es ! i) then j else i"] by (auto split: if_splits)
qed

lemma ptree_find_Some:
  assumes "ptree_find k t = Some i"
  shows "i < length (children t) \<and> key (children t ! i) = k"
proof -
  obtain i0 js where p: "positions k (children t) = i0 # js" and i: "i = first_inserted (children t) i0 js"
    using assms by (auto simp: ptree_find_def split: list.splits)
  have "i \<in> set (positions k (children t))"
    using first_inserted_in [of "children t" i0 js] p i by simp
  then show ?thesis by (simp add: positions_def)
qed














































section \<open>Pointers, copies and merges\<close>

lemma ptree_eq_same: "(t = t' \<longrightarrow> ptree_eq t t')" and entries_eq_same: "(es = es' \<longrightarrow> entries_eq es es')"
  by (induction t t' and es es' rule: ptree_eq_entries_eq.induct) auto

lemma ptree_eq_refl: "ptree_eq t t"
  using ptree_eq_same [of t t] by simp

lemma ptree_eq_structural: "ptree_eq t t' \<longleftrightarrow> node_of t = node_of t'"
  and entries_eq_structural:
    "entries_eq es es' \<longleftrightarrow>
       map (\<lambda>(k, c, n). (k, node_of c)) es = map (\<lambda>(k, c, n). (k, node_of c)) es'"
proof (induction t t' and es es' rule: ptree_eq_entries_eq.induct)
  case (1 d es d' es')
  have "length es = length es'"
    if "map (\<lambda>(k, c, n). (k, node_of c)) es = map (\<lambda>(k, c, n). (k, node_of c)) es'"
    using that map_eq_imp_length_eq by blast
  then show ?case using 1 by auto
qed auto

lemma node_at_append:
  "node_at (p @ q) t = (case node_at p t of None \<Rightarrow> None | Some n \<Rightarrow> node_at q n)"
  by (induction p arbitrary: t) auto

lemma children_set_subtree:
  "children (set_subtree i c t) = (children t)[i := (key (children t ! i), c, seq (children t ! i))]"
  by (simp add: set_subtree_def)

lemma set_subtree_twice: "set_subtree i x (set_subtree i y t) = set_subtree i x t"
  by (cases "i < length (children t)")
     (simp_all add: set_subtree_def key_def seq_def list_update_beyond not_less)

lemma set_subtree_same: "set_subtree i (subtree (children t ! i)) t = t"
  by (cases t) (simp add: set_subtree_def key_def seq_def subtree_def)

lemma update_at_id: "update_at pos (\<lambda>x. x) t = t"
  by (induction pos arbitrary: t) (simp_all add: set_subtree_same)

lemma node_at_update_at:
  "node_at pos t = Some n \<Longrightarrow> node_at pos (update_at pos f t) = Some (f n)"
proof (induction pos arbitrary: t)
  case Nil
  then show ?case by simp
next
  case (Cons i pos)
  then show ?case
    by (auto simp: children_set_subtree subtree_def split: if_splits)
qed

lemma update_at_twice: "update_at pos g (update_at pos f t) = update_at pos (\<lambda>x. g (f x)) t"
proof (induction pos arbitrary: t)
  case Nil
  then show ?case by simp
next
  case (Cons i pos)
  show ?case
  proof (cases "i < length (children t)")
    case True
    then show ?thesis
      using Cons.IH [of "subtree (children t ! i)"]
      by (simp add: children_set_subtree subtree_def set_subtree_twice)
  next
    case False
    then show ?thesis by simp
  qed
qed

lemma deref_assign_other: "fst p \<noteq> fst q \<Longrightarrow> deref (assign h p f) q = deref h q"
  by (simp add: deref_def assign_def)

lemma deref_assign_same: "deref h p = Some a \<Longrightarrow> deref (assign h p f) p = Some (f a)"
  by (auto simp: deref_def assign_def node_at_update_at split: if_splits)

lemma assign_twice: "assign (assign h p f) p g = assign h p (\<lambda>x. g (f x))"
  by (cases "fst p < length h")
     (simp_all add: assign_def update_at_twice list_update_beyond not_less)

lemma assign_id: "assign h p (\<lambda>x. x) = h"
  by (simp add: assign_def update_at_id)

lemma or_loop_eq:
  "n < length h \<Longrightarrow>
   or_loop es (n, []) h =
     h[n := fold (\<lambda>e t. fst (ptree_put_child (key e) (subtree e) t)) es (h ! n)]"
proof (induction es arbitrary: h)
  case Nil
  then show ?case by simp
next
  case (Cons e es)
  then show ?case by (simp add: assign_def)
qed

lemma node_at_update_at_apart:
  "\<not> prefix p q \<Longrightarrow> \<not> prefix q p \<Longrightarrow> node_at q (update_at p f t) = node_at q t"
proof (induction p arbitrary: q t)
  case Nil
  then show ?case by simp
next
  case (Cons i p)
  then obtain j q' where q: "q = j # q'" by (cases q) auto
  show ?case
  proof (cases "i = j")
    case True
    then have "\<not> prefix p q'" "\<not> prefix q' p" using Cons.prems q by auto
    then have "node_at q' (update_at p f (subtree (children t ! i))) =
        node_at q' (subtree (children t ! i))"
      by (rule Cons.IH)
    then show ?thesis
      using True q by (simp add: children_set_subtree subtree_def)
  next
    case False
    then show ?thesis
      using q by (simp add: children_set_subtree)
  qed
qed

lemma deref_assign_apart: "apart p q \<Longrightarrow> deref (assign h p f) q = deref h q"
proof (cases "fst p = fst q")
  case False
  then show ?thesis by (simp add: deref_assign_other)
next
  case True
  assume "apart p q"
  then have "\<not> prefix (snd p) (snd q)" "\<not> prefix (snd q) (snd p)"
    using True by (auto simp: apart_def)
  then show ?thesis
    using True by (simp add: deref_def assign_def node_at_update_at_apart)
qed

lemma apart_not_replaces: "apart self right \<Longrightarrow> \<not> replaces self target pos right"
  by (auto simp: apart_def replaces_def dest: append_prefixD)

lemma inplace_or_loop_eq:
  assumes "deref h right = Some b" and "deref h self = Some a" and "apart self right"
  shows "inplace_or_loop h self right i =
     Some (assign h self
             (fold (\<lambda>e t. fst (ptree_put_child (key e) (subtree e) t)) (drop i (children b))))"
  using assms
proof (induction "length (children b) - i" arbitrary: h a i)
  case 0
  then have "\<not> i < length (children b)" by simp
  then show ?case
    using "0.prems" by (subst inplace_or_loop.simps) (simp add: assign_id id_def)
next
  case (Suc n)
  then have i: "i < length (children b)" by simp
  define put where
    "put = (\<lambda>t. fst (ptree_put_child (key (children b ! i)) (subtree (children b ! i)) t))"
  have r: "deref (assign h self put) right = Some b"
    using Suc.prems by (simp add: deref_assign_apart)
  have s: "deref (assign h self put) self = Some (put a)"
    using Suc.prems by (simp add: deref_assign_same)
  have "inplace_or_loop (assign h self put) self right (Suc i) =
      Some (assign (assign h self put) self
             (fold (\<lambda>e t. fst (ptree_put_child (key e) (subtree e) t)) (drop (Suc i) (children b))))"
    using Suc.hyps(2) i by (intro Suc.hyps(1) [OF _ r s Suc.prems(3)]) simp
  moreover have "drop i (children b) = children b ! i # drop (Suc i) (children b)"
    using i by (simp add: Cons_nth_drop_Suc)
  ultimately show ?case
    using Suc.prems i
    by (subst inplace_or_loop.simps)
       (simp add: put_def [symmetric] assign_twice comp_def apart_not_replaces)
qed

lemma walk_path_keys:
  "walk_path p t = Some pos \<Longrightarrow>
   keys_along pos t = Some (path_fragments p) \<and> node_at pos t \<noteq> None"
proof (induction p t arbitrary: pos rule: walk_path.induct)
  case (1 p t)
  show ?case
  proof (cases "path_empty p")
    case True
    then show ?thesis
      using "1.prems" by (simp add: walk_path.simps [of p] path_fragments.simps [of p])
  next
    case False
    then obtain i pos' where f: "ptree_find (fst (path_reduce p)) t = Some i"
      and w: "walk_path (snd (path_reduce p)) (subtree (children t ! i)) = Some pos'"
      and pos: "pos = i # pos'"
      using "1.prems" by (auto simp: walk_path.simps [of p] split: option.splits)
    have i: "i < length (children t)" "key (children t ! i) = fst (path_reduce p)"
      using ptree_find_Some [OF f] by simp_all
    show ?thesis
      using "1.IH" [OF False f w] False i pos by (simp add: path_fragments.simps [of p])
  qed
qed

lemma walk_path_fails:
  "walk_path p t = None \<Longrightarrow>
   \<exists>pos n ks k. node_at pos t = Some n \<and> keys_along pos t = Some ks \<and>
     prefix (ks @ [k]) (path_fragments p) \<and> (\<forall>e\<in>set (children n). key e \<noteq> k)"
proof (induction p t rule: walk_path.induct)
  case (1 p t)
  have ne: "\<not> path_empty p"
    using "1.prems" by (auto simp: walk_path.simps [of p])
  then have fr: "path_fragments p = fst (path_reduce p) # path_fragments (snd (path_reduce p))"
    by (simp add: path_fragments.simps [of p])
  show ?case
  proof (cases "ptree_find (fst (path_reduce p)) t")
    case None
    then have "\<forall>e\<in>set (children t). key e \<noteq> fst (path_reduce p)"
      by (simp add: ptree_find_None_iff)
    then have "node_at [] t = Some t \<and> keys_along [] t = Some [] \<and>
        prefix ([] @ [fst (path_reduce p)]) (path_fragments p) \<and>
        (\<forall>e\<in>set (children t). key e \<noteq> fst (path_reduce p))"
      using fr by simp
    then show ?thesis by blast
  next
    case (Some i)
    have i: "i < length (children t)" "key (children t ! i) = fst (path_reduce p)"
      using ptree_find_Some [OF Some] by simp_all
    have "walk_path (snd (path_reduce p)) (subtree (children t ! i)) = None"
      using "1.prems" ne Some by (simp add: walk_path.simps [of p])
    then obtain pos n ks k where r: "node_at pos (subtree (children t ! i)) = Some n"
      "keys_along pos (subtree (children t ! i)) = Some ks"
      "prefix (ks @ [k]) (path_fragments (snd (path_reduce p)))"
      "\<forall>e\<in>set (children n). key e \<noteq> k"
      using "1.IH" [OF ne Some] by blast
    have "node_at (i # pos) t = Some n \<and> keys_along (i # pos) t = Some (fst (path_reduce p) # ks) \<and>
        prefix ((fst (path_reduce p) # ks) @ [k]) (path_fragments p) \<and>
        (\<forall>e\<in>set (children n). key e \<noteq> k)"
      using r i fr by simp
    then show ?thesis by blast
  qed
qed

lemma path_reduce_single: "path_single k \<Longrightarrow> fst (path_reduce k) = k"
  by (auto simp: path_single_def path_reduce_def takeWhile_eq_all_conv)

lemma put_child_single: "path_single k \<Longrightarrow> fst (ptree_put_child k v t) = put_key k v t"
  by (simp add: ptree_put_child_def force_path.simps [of k] put_last_def put_key_def
      path_reduce_single split: option.splits)

lemma merged_put_key:
  "(\<forall>e\<in>set es. path_single (key e)) \<Longrightarrow>
   fold (\<lambda>e t. fst (ptree_put_child (key e) (subtree e) t)) es a =
   fold (\<lambda>e t. put_key (key e) (subtree e) t) es a"
  by (induction es arbitrary: a) (simp_all add: put_child_single)

text \<open>
  The library's \<^verbatim>\<open>reduce()\<close> and the pieces of a path: without a separator the path is
  its only piece; with one, the first piece is what \<^verbatim>\<open>reduce()\<close> returns and the others
  are the pieces of what it leaves.
\<close>

lemma split_on_not_Nil: "split_on sep p \<noteq> []"
  by (induction p) (auto split: list.splits)

lemma split_on_single: "sep \<notin> set p \<Longrightarrow> split_on sep p = [p]"
  by (induction p) auto

lemma split_on_cut:
  "sep \<in> set p \<Longrightarrow>
   split_on sep p =
     takeWhile (\<lambda>c. c \<noteq> sep) p # split_on sep (drop 1 (dropWhile (\<lambda>c. c \<noteq> sep) p))"
proof (induction p)
  case Nil
  then show ?case by simp
next
  case (Cons c cs)
  show ?case
  proof (cases "c = sep")
    case True
    then show ?thesis by simp
  next
    case False
    then have "sep \<in> set cs" using Cons.prems by auto
    then show ?thesis using False Cons.IH by simp
  qed
qed

lemma split_on_reduce:
  "\<not> path_single p \<Longrightarrow>
   split_on path_sep p = fst (path_reduce p) # split_on path_sep (snd (path_reduce p))"
  by (simp add: path_single_def path_reduce_def split_on_cut)

lemma path_cut:
  "\<not> path_single p \<Longrightarrow> p = fst (path_reduce p) @ path_sep # snd (path_reduce p)"
proof -
  assume "\<not> path_single p"
  then have ne: "dropWhile (\<lambda>c. c \<noteq> path_sep) p \<noteq> []"
    by (auto simp: path_single_def dropWhile_eq_Nil_conv)
  then have "hd (dropWhile (\<lambda>c. c \<noteq> path_sep) p) = path_sep"
    using hd_dropWhile [of "\<lambda>c. c \<noteq> path_sep" p] by simp
  then have "dropWhile (\<lambda>c. c \<noteq> path_sep) p = path_sep # drop 1 (dropWhile (\<lambda>c. c \<noteq> path_sep) p)"
    using ne by (cases "dropWhile (\<lambda>c. c \<noteq> path_sep) p") auto
  then have "takeWhile (\<lambda>c. c \<noteq> path_sep) p @ dropWhile (\<lambda>c. c \<noteq> path_sep) p =
      fst (path_reduce p) @ path_sep # snd (path_reduce p)"
    by (simp add: path_reduce_def)
  then show ?thesis by simp
qed

lemma put_child_put_path: "fst (ptree_put_child p v t) = put_path (split_on path_sep p) v t"
proof (induction "length p" arbitrary: p t rule: less_induct)
  case less
  show ?case
  proof (cases "path_single p")
    case True
    then have "split_on path_sep p = [p]" by (simp add: path_single_def split_on_single)
    then show ?thesis using True by (simp add: put_child_single)
  next
    case False
    define k where "k = fst (path_reduce p)"
    define rest where "rest = snd (path_reduce p)"
    have "p \<noteq> []" using False by (auto simp: path_single_def)
    then have shorter: "length rest < length p"
      unfolding rest_def by (rule path_reduce_shorter)
    obtain k' ks where ks: "split_on path_sep rest = k' # ks"
      using split_on_not_Nil [of path_sep rest] by (cases "split_on path_sep rest") auto
    have sp: "split_on path_sep p = k # k' # ks"
      using False ks by (simp add: split_on_reduce k_def rest_def)
    have ih: "fst (force_path rest (put_last v) c) = put_path (k' # ks) v c" for c
      using less [OF shorter, of c] ks by (simp add: ptree_put_child_def)
    show ?thesis
      using False ih
      by (simp add: sp ptree_put_child_def force_path.simps [of p] k_def [symmetric]
          rest_def [symmetric] case_prod_unfold split: option.splits)
  qed
qed

lemma merged_put_path:
  "fold (\<lambda>e t. fst (ptree_put_child (key e) (subtree e) t)) es a =
   fold (\<lambda>e t. put_path (split_on path_sep (key e)) (subtree e) t) es a"
  by (induction es arbitrary: a) (simp_all add: put_child_put_path)

lemma walk_keys_path_sep:
  "walk_keys p =
     (if p = [] then []
      else if last p = path_sep then butlast (split_on path_sep p)
      else split_on path_sep p)"
  by (simp add: walk_keys_def path_sep_def)

lemma path_fragments_walk_keys: "path_fragments p = walk_keys p"
proof (induction "length p" arbitrary: p rule: less_induct)
  case less
  show ?case
  proof (cases "p = []")
    case True
    then show ?thesis by (simp add: path_fragments.simps [of "[]"] walk_keys_path_sep path_empty_def)
  next
    case ne: False
    define k where "k = fst (path_reduce p)"
    define rest where "rest = snd (path_reduce p)"
    have fr: "path_fragments p = k # path_fragments rest"
      using ne by (simp add: path_fragments.simps [of p] path_empty_def k_def rest_def)
    have shorter: "length rest < length p"
      unfolding rest_def using ne by (rule path_reduce_shorter)
    have ih: "path_fragments rest = walk_keys rest"
      using shorter by (rule less)
    show ?thesis
    proof (cases "path_single p")
      case True
      then have dw: "dropWhile (\<lambda>c. c \<noteq> path_sep) p = []"
        by (auto simp: path_single_def dropWhile_eq_Nil_conv)
      have "rest = []"
        unfolding rest_def path_reduce_def snd_conv dw by simp
      moreover have "k = p"
        using True by (simp add: k_def path_reduce_single)
      moreover have "last p \<noteq> path_sep"
      proof
        assume "last p = path_sep"
        then have "path_sep \<in> set p" using last_in_set [OF ne] by simp
        then show False using True by (simp add: path_single_def)
      qed
      moreover have "split_on path_sep p = [p]"
        using True by (simp add: path_single_def split_on_single)
      ultimately show ?thesis
        using ne fr by (simp add: walk_keys_path_sep path_fragments.simps [of "[]"] path_empty_def)
    next
      case False
      have sp: "split_on path_sep p = k # split_on path_sep rest"
        using False by (simp add: split_on_reduce k_def rest_def)
      have cut: "p = k @ path_sep # rest"
        using path_cut [OF False] by (simp add: k_def rest_def)
      show ?thesis
      proof (cases "rest = []")
        case True
        then have "last p = path_sep" using cut by simp
        then show ?thesis
          using ne fr True sp
          by (simp add: walk_keys_path_sep path_fragments.simps [of "[]"] path_empty_def)
      next
        case rne: False
        have "last p = last rest"
          using cut rne by (metis last_ConsR last_appendR list.distinct(1))
        then show ?thesis
          using ne rne fr ih sp split_on_not_Nil [of path_sep rest]
          by (simp add: walk_keys_path_sep)
      qed
    qed
  qed
qed

text \<open>
  C8. For an object \<open>self\<close> that points to the tree \<open>t\<close>, \<open>copy\<close> returns a new object
  that owns a newly allocated tree and leaves \<open>self\<close> pointing to \<open>t\<close>; comparing the copy
  with \<open>self\<close> by \<open>==\<close> gives \<^verbatim>\<open>True\<close>; and after any write \<open>f\<close> through a pointer to any
  node \<open>pos\<close> of the copy, \<open>self\<close> still points to \<open>t\<close>. The equality of two trees is
  structural: it holds exactly when they are the same node of the data model, with the
  same value and the same children, key by key, in the same order.
\<close>

theorem copy_equal_and_independent:
  assumes "deref h (obj self) = Some t"
  shows "PyPropertyTree__copy h self =
           Some (PyPropertyTree_New (length h, []) PTREE_FLAG_NONE, h @ [t]) \<and>
         deref (h @ [t]) (length h, []) = Some t \<and>
         deref (h @ [t]) (obj self) = Some t \<and>
         compare_objects c (h @ [t]) (PyPropertyTree_New (length h, []) PTREE_FLAG_NONE) self Py_EQ =
           Some (Returns Py_True None) \<and>
         deref (assign (h @ [t]) (length h, pos) f) (obj self) = Some t \<and>
         (ptree_eq x y \<longleftrightarrow> node_of x = node_of y)"
proof -
  have a: "fst (obj self) < length h"
    using assms by (simp add: deref_def split: if_splits)
  have 1: "PyPropertyTree__copy h self =
           Some (PyPropertyTree_New (length h, []) PTREE_FLAG_NONE, h @ [t])"
    using assms by (simp add: PyPropertyTree__copy_def new_ptree_def)
  have 2: "deref (h @ [t]) (length h, []) = Some t"
    by (simp add: deref_def)
  have 3: "deref (h @ [t]) (obj self) = Some t"
    using assms a by (simp add: deref_def nth_append)
  have 4: "compare_objects c (h @ [t]) (PyPropertyTree_New (length h, []) PTREE_FLAG_NONE) self Py_EQ =
           Some (Returns Py_True None)"
    using 2 3
    by (simp add: compare_objects_def PyPropertyTree_New_def PyPropertyTree__tp_richcompare_def
        ptree_eq_refl)
  have 5: "deref (assign (h @ [t]) (length h, pos) f) (obj self) = Some t"
    using a 3 deref_assign_other [of "(length h, pos)" "obj self" "h @ [t]" f] by simp
  show ?thesis using 1 2 3 4 5 ptree_eq_structural [of x y] by blast
qed

theorem copy_equal_and_independent_witness:
  "PyPropertyTree__copy [Ptree ''v'' [(''a'', Ptree ''1'' [], 0)]] \<lparr>obj = (0, []), flags = PTREE_FLAG_NONE\<rparr> =
     Some (\<lparr>obj = (1, []), flags = PTREE_FLAG_NONE\<rparr>,
           [Ptree ''v'' [(''a'', Ptree ''1'' [], 0)], Ptree ''v'' [(''a'', Ptree ''1'' [], 0)]]) \<and>
   compare_objects bool_only
     [Ptree ''v'' [(''a'', Ptree ''1'' [], 0)], Ptree ''v'' [(''a'', Ptree ''1'' [], 0)]]
     \<lparr>obj = (1, []), flags = PTREE_FLAG_NONE\<rparr> \<lparr>obj = (0, []), flags = PTREE_FLAG_NONE\<rparr> Py_EQ =
     Some (Returns Py_True None) \<and>
   deref (assign [Ptree ''v'' [(''a'', Ptree ''1'' [], 0)], Ptree ''v'' [(''a'', Ptree ''1'' [], 0)]]
            (1, [0]) (\<lambda>t. Ptree ''changed'' []))
     (0, []) = Some (Ptree ''v'' [(''a'', Ptree ''1'' [], 0)])"
  using copy_equal_and_independent
    [of "[Ptree ''v'' [(''a'', Ptree ''1'' [], 0)]]" "\<lparr>obj = (0, []), flags = PTREE_FLAG_NONE\<rparr>"
        "Ptree ''v'' [(''a'', Ptree ''1'' [], 0)]" bool_only "[0]" "\<lambda>t. Ptree ''changed'' []"]
  by (simp add: deref_def PyPropertyTree_New_def)

lemma walk_path_resolve: "walk_path p t = resolve (path_fragments p) t"
proof (induction p t rule: walk_path.induct)
  case (1 p t)
  show ?case
  proof (cases "path_empty p")
    case True
    then show ?thesis by (simp add: walk_path.simps [of p] path_fragments.simps [of p])
  next
    case False
    show ?thesis
    proof (cases "ptree_find (fst (path_reduce p)) t")
      case None
      then show ?thesis
        using False by (simp add: walk_path.simps [of p] path_fragments.simps [of p])
    next
      case (Some i)
      then show ?thesis
        using False "1.IH" [OF False Some]
        by (simp add: walk_path.simps [of p] path_fragments.simps [of p])
    qed
  qed
qed

lemma walk_path_walk_keys: "walk_path p t = resolve (walk_keys p) t"
  by (simp add: walk_path_resolve path_fragments_walk_keys)

text \<open>
  C5. For an object \<open>self\<close> that points to the tree \<open>t\<close>, and the keys of the path, which
  are its pieces between the dots: when the keys resolve in \<open>t\<close>, \<open>get\<close> returns a new
  object that points to the node they resolve to, inside the tree of \<open>self\<close>, and the
  keys of the entries on the way to that node are the keys of the path; when they do not
  resolve, \<open>get\<close> raises \<^verbatim>\<open>BadPathError\<close> without a default and returns the default
  otherwise, and then there is a node, reached along some of the keys, that has no child
  with the next key; the heap is the same afterwards in every case.
\<close>

theorem get_child_or_default:
  assumes "deref h (obj self) = Some t"
  shows "PyPropertyTree_get h self path py_default =
           Some ((case resolve (walk_keys path) t of
                    Some pos \<Rightarrow>
                      Inr (PyTree (PyPropertyTree_New (fst (obj self), snd (obj self) @ pos)
                                     PTREE_FLAG_OBJECT_NOT_OWNED))
                  | None \<Rightarrow> (case py_default of None \<Rightarrow> Inl BadPathError | Some d \<Rightarrow> Inr d)), h) \<and>
         (case resolve (walk_keys path) t of
            Some pos \<Rightarrow>
              deref h (fst (obj self), snd (obj self) @ pos) = node_at pos t \<and>
              node_at pos t \<noteq> None \<and>
              keys_along pos t = Some (walk_keys path)
          | None \<Rightarrow>
              (\<exists>pos n ks k. node_at pos t = Some n \<and> keys_along pos t = Some ks \<and>
                 prefix (ks @ [k]) (walk_keys path) \<and>
                 (\<forall>e\<in>set (children n). key e \<noteq> k)))"
proof (cases "walk_path path t")
  case None
  then have r: "resolve (walk_keys path) t = None" by (simp add: walk_path_walk_keys)
  show ?thesis
    using assms None r walk_path_fails [OF None]
    by (simp add: PyPropertyTree_get_def ptree_get_child_def path_fragments_walk_keys
        split: option.splits)
next
  case (Some pos)
  then have r: "resolve (walk_keys path) t = Some pos" by (simp add: walk_path_walk_keys)
  have "deref h (fst (obj self), snd (obj self) @ pos) = node_at pos t"
    using assms by (auto simp: deref_def node_at_append split: if_splits)
  then show ?thesis
    using assms Some r walk_path_keys [OF Some]
    by (simp add: PyPropertyTree_get_def ptree_get_child_def path_fragments_walk_keys)
qed

lemma resolve_examples:
  "resolve (walk_keys ''a.b'') (Ptree ''v'' [(''a'', Ptree [] [(''b'', Ptree ''1'' [], 0)], 0)]) = Some [0, 0]"
  "resolve (walk_keys ''a'') (Ptree ''v'' [(''a'', Ptree [] [(''b'', Ptree ''1'' [], 0)], 0)]) = Some [0]"
  "resolve (walk_keys ''a.z'') (Ptree ''v'' [(''a'', Ptree [] [(''b'', Ptree ''1'' [], 0)], 0)]) = None"
  "resolve (walk_keys ''b'') (Ptree ''v'' [(''a'', Ptree [] [(''b'', Ptree ''1'' [], 0)], 0)]) = None"
  by (simp_all add: walk_keys_def path_sep_def ptree_find_def positions_def first_inserted_def
      key_def subtree_def)

theorem get_child_or_default_witness:
  "PyPropertyTree_get [Ptree ''v'' [(''a'', Ptree [] [(''b'', Ptree ''1'' [], 0)], 0)]]
     \<lparr>obj = (0, []), flags = PTREE_FLAG_NONE\<rparr>
     ''a.b'' (None :: (unit, PyPropertyTree) pyobj option) =
     Some (Inr (PyTree \<lparr>obj = (0, [0, 0]), flags = PTREE_FLAG_OBJECT_NOT_OWNED\<rparr>),
           [Ptree ''v'' [(''a'', Ptree [] [(''b'', Ptree ''1'' [], 0)], 0)]]) \<and>
   deref [Ptree ''v'' [(''a'', Ptree [] [(''b'', Ptree ''1'' [], 0)], 0)]] (0, [0, 0]) =
     Some (Ptree ''1'' []) \<and>
   PyPropertyTree_get [Ptree ''v'' [(''a'', Ptree [] [(''b'', Ptree ''1'' [], 0)], 0)]]
     \<lparr>obj = (0, []), flags = PTREE_FLAG_NONE\<rparr>
     ''a'' (None :: (unit, PyPropertyTree) pyobj option) =
     Some (Inr (PyTree \<lparr>obj = (0, [0]), flags = PTREE_FLAG_OBJECT_NOT_OWNED\<rparr>),
           [Ptree ''v'' [(''a'', Ptree [] [(''b'', Ptree ''1'' [], 0)], 0)]]) \<and>
   deref [Ptree ''v'' [(''a'', Ptree [] [(''b'', Ptree ''1'' [], 0)], 0)]] (0, [0]) =
     Some (Ptree [] [(''b'', Ptree ''1'' [], 0)]) \<and>
   PyPropertyTree_get [Ptree ''v'' [(''a'', Ptree [] [(''b'', Ptree ''1'' [], 0)], 0)]]
     \<lparr>obj = (0, []), flags = PTREE_FLAG_NONE\<rparr>
     ''a.z'' (None :: (unit, PyPropertyTree) pyobj option) =
     Some (Inl BadPathError, [Ptree ''v'' [(''a'', Ptree [] [(''b'', Ptree ''1'' [], 0)], 0)]]) \<and>
   PyPropertyTree_get [Ptree ''v'' [(''a'', Ptree [] [(''b'', Ptree ''1'' [], 0)], 0)]]
     \<lparr>obj = (0, []), flags = PTREE_FLAG_NONE\<rparr>
     ''b'' (Some (PyLong 7 :: (unit, PyPropertyTree) pyobj)) =
     Some (Inr (PyLong 7), [Ptree ''v'' [(''a'', Ptree [] [(''b'', Ptree ''1'' [], 0)], 0)]])"
  using get_child_or_default
    [of "[Ptree ''v'' [(''a'', Ptree [] [(''b'', Ptree ''1'' [], 0)], 0)]]"
        "\<lparr>obj = (0, []), flags = PTREE_FLAG_NONE\<rparr>"
        "Ptree ''v'' [(''a'', Ptree [] [(''b'', Ptree ''1'' [], 0)], 0)]" "''a.b''"
        "None :: (unit, PyPropertyTree) pyobj option"]
    get_child_or_default
    [of "[Ptree ''v'' [(''a'', Ptree [] [(''b'', Ptree ''1'' [], 0)], 0)]]"
        "\<lparr>obj = (0, []), flags = PTREE_FLAG_NONE\<rparr>"
        "Ptree ''v'' [(''a'', Ptree [] [(''b'', Ptree ''1'' [], 0)], 0)]" "''a''"
        "None :: (unit, PyPropertyTree) pyobj option"]
    get_child_or_default
    [of "[Ptree ''v'' [(''a'', Ptree [] [(''b'', Ptree ''1'' [], 0)], 0)]]"
        "\<lparr>obj = (0, []), flags = PTREE_FLAG_NONE\<rparr>"
        "Ptree ''v'' [(''a'', Ptree [] [(''b'', Ptree ''1'' [], 0)], 0)]" "''a.z''"
        "None :: (unit, PyPropertyTree) pyobj option"]
    get_child_or_default
    [of "[Ptree ''v'' [(''a'', Ptree [] [(''b'', Ptree ''1'' [], 0)], 0)]]"
        "\<lparr>obj = (0, []), flags = PTREE_FLAG_NONE\<rparr>"
        "Ptree ''v'' [(''a'', Ptree [] [(''b'', Ptree ''1'' [], 0)], 0)]" "''b''"
        "Some (PyLong 7 :: (unit, PyPropertyTree) pyobj)"]
    resolve_examples
  by (simp add: deref_def PyPropertyTree_New_def subtree_def)

text \<open>
  C4, as the code has it. For objects \<open>left\<close> and \<open>right\<close> that point to the trees \<open>a\<close>
  and \<open>b\<close>: \<open>left | right\<close> returns a new object that owns a new tree, \<open>a\<close> with every
  child of \<open>b\<close> put into it, and \<open>left\<close> and \<open>right\<close> still point to \<open>a\<close> and \<open>b\<close>.
  When \<open>left\<close> and \<open>right\<close> point to nodes that are apart, \<open>left |= right\<close> returns
  \<open>left\<close>, which then points to that merged tree, while \<open>right\<close> still points to \<open>b\<close>.
  Each put takes the key of the child as a path: the key is cut at its dots, the pieces
  but the last name the children to go into, made where they are missing, and the last
  piece is put as a key. So when no key of \<open>b\<close> has a dot in it, each put is a put of the
  key: it replaces the subtree of a child with the same key, or appends a child when
  there is none.
\<close>

theorem merge_puts_children:
  assumes "deref h (obj left) = Some a" and "deref h (obj right) = Some b"
  shows "PyPropertyTree__nb_or h (PyTree left :: ('d, PyPropertyTree) pyobj) (PyTree right) =
           Some (Result (PyPropertyTree_New (length h, []) PTREE_FLAG_NONE), h @ [merged a b]) \<and>
         deref (h @ [merged a b]) (length h, []) = Some (merged a b) \<and>
         deref (h @ [merged a b]) (obj left) = Some a \<and>
         deref (h @ [merged a b]) (obj right) = Some b \<and>
         (apart (obj left) (obj right) \<longrightarrow>
            PyPropertyTree__nb_inplace_or h left (PyTree right :: ('d, PyPropertyTree) pyobj) =
              Some (Result left, assign h (obj left) (\<lambda>t. merged t b)) \<and>
            deref (assign h (obj left) (\<lambda>t. merged t b)) (obj left) = Some (merged a b) \<and>
            deref (assign h (obj left) (\<lambda>t. merged t b)) (obj right) = Some b) \<and>
         merged a b =
           fold (\<lambda>e t. put_path (split_on CHR ''.'' (key e)) (subtree e) t) (children b) a \<and>
         ((\<forall>e\<in>set (children b). CHR ''.'' \<notin> set (key e)) \<longrightarrow>
            merged a b = fold (\<lambda>e t. put_key (key e) (subtree e) t) (children b) a)"
proof -
  have l: "fst (obj left) < length h" and r: "fst (obj right) < length h"
    using assms by (simp_all add: deref_def split: if_splits)
  have 1: "PyPropertyTree__nb_or h (PyTree left :: ('d, PyPropertyTree) pyobj) (PyTree right) =
           Some (Result (PyPropertyTree_New (length h, []) PTREE_FLAG_NONE), h @ [merged a b])"
    using assms or_loop_eq [of "length h" "h @ [a]" "children b"]
    by (simp add: PyPropertyTree__nb_or_def new_ptree_def merged_def)
  have 2: "deref (h @ [merged a b]) (length h, []) = Some (merged a b)"
    by (simp add: deref_def)
  have 3: "deref (h @ [merged a b]) (obj left) = Some a"
    using assms l by (simp add: deref_def nth_append)
  have 4: "deref (h @ [merged a b]) (obj right) = Some b"
    using assms r by (simp add: deref_def nth_append)
  have 5: "PyPropertyTree__nb_inplace_or h left (PyTree right :: ('d, PyPropertyTree) pyobj) =
              Some (Result left, assign h (obj left) (\<lambda>t. merged t b)) \<and>
            deref (assign h (obj left) (\<lambda>t. merged t b)) (obj left) = Some (merged a b) \<and>
            deref (assign h (obj left) (\<lambda>t. merged t b)) (obj right) = Some b"
    if d: "apart (obj left) (obj right)"
    using inplace_or_loop_eq [OF assms(2) assms(1) d, of 0] assms d
    by (simp add: PyPropertyTree__nb_inplace_or_def merged_def deref_assign_apart
        deref_assign_same)
  have 6: "merged a b =
      fold (\<lambda>e t. put_path (split_on CHR ''.'' (key e)) (subtree e) t) (children b) a"
    using merged_put_path [of "children b" a] by (simp add: merged_def path_sep_def)
  have 7: "merged a b = fold (\<lambda>e t. put_key (key e) (subtree e) t) (children b) a"
    if "\<forall>e\<in>set (children b). CHR ''.'' \<notin> set (key e)"
    using that by (simp add: merged_def merged_put_key path_single_def path_sep_def)
  show ?thesis using 1 2 3 4 5 6 7 by blast
qed

lemma put_key_examples:
  "put_key ''x'' (Ptree ''2'' []) (Ptree [] [(''x'', Ptree ''1'' [], 0)]) =
     Ptree [] [(''x'', Ptree ''2'' [], 0)]"
  "put_key ''y'' (Ptree ''3'' []) (Ptree [] [(''x'', Ptree ''2'' [], 0)]) =
     Ptree [] [(''x'', Ptree ''2'' [], 0), (''y'', Ptree ''3'' [], 1)]"
  "put_key ''z'' (Ptree ''3'' []) (Ptree [] []) = Ptree [] [(''z'', Ptree ''3'' [], 0)]"
  by (simp_all add: put_key_def ptree_find_def positions_def first_inserted_def key_def seq_def
      set_subtree_def ptree_push_back_def next_seq_def)

lemma merged_examples:
  "merged (Ptree [] [(''x'', Ptree ''1'' [], 0)])
     (Ptree [] [(''x'', Ptree ''2'' [], 0), (''y.z'', Ptree ''3'' [], 1)]) =
   Ptree [] [(''x'', Ptree ''2'' [], 0), (''y'', Ptree [] [(''z'', Ptree ''3'' [], 0)], 1)]"
  by (simp add: merged_def put_child_put_path path_sep_def put_key_def ptree_find_def positions_def
      first_inserted_def key_def seq_def subtree_def set_subtree_def ptree_push_back_def
      next_seq_def ptree_empty_def)

theorem merge_puts_children_witness:
  "PyPropertyTree__nb_or
     [Ptree [] [(''x'', Ptree ''1'' [], 0)],
      Ptree [] [(''x'', Ptree ''2'' [], 0), (''y.z'', Ptree ''3'' [], 1)]]
     (PyTree \<lparr>obj = (0, []), flags = PTREE_FLAG_NONE\<rparr> :: (unit, PyPropertyTree) pyobj)
     (PyTree \<lparr>obj = (1, []), flags = PTREE_FLAG_NONE\<rparr>) =
     Some (Result \<lparr>obj = (2, []), flags = PTREE_FLAG_NONE\<rparr>,
           [Ptree [] [(''x'', Ptree ''1'' [], 0)],
            Ptree [] [(''x'', Ptree ''2'' [], 0), (''y.z'', Ptree ''3'' [], 1)],
            Ptree [] [(''x'', Ptree ''2'' [], 0), (''y'', Ptree [] [(''z'', Ptree ''3'' [], 0)], 1)]]) \<and>
   PyPropertyTree__nb_inplace_or
     [Ptree [] [(''x'', Ptree ''1'' [], 0)],
      Ptree [] [(''x'', Ptree ''2'' [], 0), (''y.z'', Ptree ''3'' [], 1)]]
     \<lparr>obj = (0, []), flags = PTREE_FLAG_NONE\<rparr>
     (PyTree \<lparr>obj = (1, []), flags = PTREE_FLAG_NONE\<rparr> :: (unit, PyPropertyTree) pyobj) =
     Some (Result \<lparr>obj = (0, []), flags = PTREE_FLAG_NONE\<rparr>,
           [Ptree [] [(''x'', Ptree ''2'' [], 0), (''y'', Ptree [] [(''z'', Ptree ''3'' [], 0)], 1)],
            Ptree [] [(''x'', Ptree ''2'' [], 0), (''y.z'', Ptree ''3'' [], 1)]]) \<and>
   PyPropertyTree__nb_inplace_or
     [Ptree [] [(''p'', Ptree [] [(''x'', Ptree ''1'' [], 0)], 0),
                (''q'', Ptree [] [(''x'', Ptree ''2'' [], 0), (''y.z'', Ptree ''3'' [], 1)], 1)]]
     \<lparr>obj = (0, [0]), flags = PTREE_FLAG_OBJECT_NOT_OWNED\<rparr>
     (PyTree \<lparr>obj = (0, [1]), flags = PTREE_FLAG_OBJECT_NOT_OWNED\<rparr> :: (unit, PyPropertyTree) pyobj) =
     Some (Result \<lparr>obj = (0, [0]), flags = PTREE_FLAG_OBJECT_NOT_OWNED\<rparr>,
           [Ptree [] [(''p'', Ptree [] [(''x'', Ptree ''2'' [], 0),
                                        (''y'', Ptree [] [(''z'', Ptree ''3'' [], 0)], 1)], 0),
                      (''q'', Ptree [] [(''x'', Ptree ''2'' [], 0), (''y.z'', Ptree ''3'' [], 1)], 1)]])"
proof -
  define A where "A = Ptree [] [(''x'', Ptree ''1'' [], 0)]"
  define B where "B = Ptree [] [(''x'', Ptree ''2'' [], 0), (''y.z'', Ptree ''3'' [], 1)]"
  define M where
    "M = Ptree [] [(''x'', Ptree ''2'' [], 0), (''y'', Ptree [] [(''z'', Ptree ''3'' [], 0)], 1)]"
  define L where "L = \<lparr>obj = (0, []), flags = PTREE_FLAG_NONE\<rparr>"
  define R where "R = \<lparr>obj = (1, []), flags = PTREE_FLAG_NONE\<rparr>"
  define P where "P = \<lparr>obj = (0, [0]), flags = PTREE_FLAG_OBJECT_NOT_OWNED\<rparr>"
  define Q where "Q = \<lparr>obj = (0, [1]), flags = PTREE_FLAG_OBJECT_NOT_OWNED\<rparr>"
  have m: "merged A B = M"
    unfolding A_def B_def M_def by (rule merged_examples)
  have a: "deref [A, B] (obj L) = Some A" and b: "deref [A, B] (obj R) = Some B"
    by (simp_all add: deref_def L_def R_def)
  have d: "apart (obj L) (obj R)"
    by (simp add: L_def R_def apart_def)
  have u: "assign [A, B] (obj L) (\<lambda>t. merged t B) = [M, B]"
    using m by (simp add: assign_def L_def)
  have 1: "PyPropertyTree__nb_or [A, B] (PyTree L :: (unit, PyPropertyTree) pyobj) (PyTree R) =
      Some (Result \<lparr>obj = (2, []), flags = PTREE_FLAG_NONE\<rparr>, [A, B, M])"
    using merge_puts_children [OF a b, where ?'d = unit] m by (simp add: PyPropertyTree_New_def)
  have 2: "PyPropertyTree__nb_inplace_or [A, B] L (PyTree R :: (unit, PyPropertyTree) pyobj) =
      Some (Result L, [M, B])"
    using merge_puts_children [OF a b, where ?'d = unit] d u by simp
  have a': "deref [Ptree [] [(''p'', A, 0), (''q'', B, 1)]] (obj P) = Some A"
    and b': "deref [Ptree [] [(''p'', A, 0), (''q'', B, 1)]] (obj Q) = Some B"
    by (simp_all add: deref_def P_def Q_def subtree_def)
  have d': "apart (obj P) (obj Q)"
    by (simp add: P_def Q_def apart_def)
  have u': "assign [Ptree [] [(''p'', A, 0), (''q'', B, 1)]] (obj P) (\<lambda>t. merged t B) =
      [Ptree [] [(''p'', M, 0), (''q'', B, 1)]]"
    using m by (simp add: assign_def P_def set_subtree_def subtree_def key_def seq_def)
  have 3: "PyPropertyTree__nb_inplace_or [Ptree [] [(''p'', A, 0), (''q'', B, 1)]] P
        (PyTree Q :: (unit, PyPropertyTree) pyobj) =
      Some (Result P, [Ptree [] [(''p'', M, 0), (''q'', B, 1)]])"
    using merge_puts_children [OF a' b', where ?'d = unit] d' u' by simp
  show ?thesis
    using 1 2 3 unfolding A_def B_def M_def L_def R_def P_def Q_def by simp
qed

text \<open>
  Where the code does something else. A key with a dot in it is not put as a key: merging
  a tree whose only child has the key \<open>x.y\<close> into an empty tree gives a child \<open>x\<close> with
  a child \<open>y\<close>, where a put of the key gives one child with the key \<open>x.y\<close>. When one
  operand of \<open>|=\<close> lies inside the other or is the other, the loop reads what it has
  written. With \<open>a\<close> the tree of the children \<open>x.y\<close> and \<open>x\<close>, \<open>a |= a\<close> leaves the
  child \<open>y\<close> that the first put made under \<open>x\<close>, where putting the children \<open>a\<close> had
  before into \<open>a\<close> gives \<open>a\<close> back. With \<open>b\<close> the tree of the children \<open>y\<close> and \<open>x\<close>
  and \<open>s\<close> its child \<open>x\<close>, \<open>s |= b\<close> puts the child \<open>x\<close> as it is after the first put,
  not as it was. And with \<open>x\<close> a child of \<open>a\<close> that has a child \<open>x\<close> itself,
  \<open>a |= a['x']\<close> replaces the node it is walking through, and nothing is defined after
  that.
\<close>

theorem merge_dotted_key_counterexample:
  "PyPropertyTree__nb_or
     [Ptree [] [], Ptree [] [(''x.y'', Ptree ''1'' [], 0)]]
     (PyTree \<lparr>obj = (0, []), flags = PTREE_FLAG_NONE\<rparr> :: (unit, PyPropertyTree) pyobj)
     (PyTree \<lparr>obj = (1, []), flags = PTREE_FLAG_NONE\<rparr>) =
     Some (Result \<lparr>obj = (2, []), flags = PTREE_FLAG_NONE\<rparr>,
           [Ptree [] [], Ptree [] [(''x.y'', Ptree ''1'' [], 0)],
            Ptree [] [(''x'', Ptree [] [(''y'', Ptree ''1'' [], 0)], 0)]]) \<and>
   put_key ''x.y'' (Ptree ''1'' []) (Ptree [] []) = Ptree [] [(''x.y'', Ptree ''1'' [], 0)] \<and>
   PyPropertyTree__nb_inplace_or
     [Ptree [] [(''x.y'', Ptree ''1'' [], 0), (''x'', Ptree ''old'' [], 1)]]
     \<lparr>obj = (0, []), flags = PTREE_FLAG_NONE\<rparr>
     (PyTree \<lparr>obj = (0, []), flags = PTREE_FLAG_NONE\<rparr> :: (unit, PyPropertyTree) pyobj) =
     Some (Result \<lparr>obj = (0, []), flags = PTREE_FLAG_NONE\<rparr>,
           [Ptree [] [(''x.y'', Ptree ''1'' [], 0),
                      (''x'', Ptree ''old'' [(''y'', Ptree ''1'' [], 0)], 1)]]) \<and>
   merged (Ptree [] [(''x.y'', Ptree ''1'' [], 0), (''x'', Ptree ''old'' [], 1)])
          (Ptree [] [(''x.y'', Ptree ''1'' [], 0), (''x'', Ptree ''old'' [], 1)]) =
     Ptree [] [(''x.y'', Ptree ''1'' [], 0), (''x'', Ptree ''old'' [], 1)] \<and>
   PyPropertyTree__nb_inplace_or
     [Ptree [] [(''y'', Ptree ''1'' [], 0), (''x'', Ptree [] [], 1)]]
     \<lparr>obj = (0, [1]), flags = PTREE_FLAG_OBJECT_NOT_OWNED\<rparr>
     (PyTree \<lparr>obj = (0, []), flags = PTREE_FLAG_NONE\<rparr> :: (unit, PyPropertyTree) pyobj) =
     Some (Result \<lparr>obj = (0, [1]), flags = PTREE_FLAG_OBJECT_NOT_OWNED\<rparr>,
           [Ptree [] [(''y'', Ptree ''1'' [], 0),
                      (''x'', Ptree [] [(''y'', Ptree ''1'' [], 0),
                                        (''x'', Ptree [] [(''y'', Ptree ''1'' [], 0)], 1)], 1)]]) \<and>
   merged (Ptree [] []) (Ptree [] [(''y'', Ptree ''1'' [], 0), (''x'', Ptree [] [], 1)]) =
     Ptree [] [(''y'', Ptree ''1'' [], 0), (''x'', Ptree [] [], 1)] \<and>
   PyPropertyTree__nb_inplace_or
     [Ptree [] [(''x'', Ptree [] [(''x'', Ptree ''1'' [], 0)], 0)]]
     \<lparr>obj = (0, []), flags = PTREE_FLAG_NONE\<rparr>
     (PyTree \<lparr>obj = (0, [0]), flags = PTREE_FLAG_OBJECT_NOT_OWNED\<rparr> :: (unit, PyPropertyTree) pyobj) =
     None"
proof -
  have 1: "PyPropertyTree__nb_or
     [Ptree [] [], Ptree [] [(''x.y'', Ptree ''1'' [], 0)]]
     (PyTree \<lparr>obj = (0, []), flags = PTREE_FLAG_NONE\<rparr> :: (unit, PyPropertyTree) pyobj)
     (PyTree \<lparr>obj = (1, []), flags = PTREE_FLAG_NONE\<rparr>) =
     Some (Result \<lparr>obj = (2, []), flags = PTREE_FLAG_NONE\<rparr>,
           [Ptree [] [], Ptree [] [(''x.y'', Ptree ''1'' [], 0)],
            Ptree [] [(''x'', Ptree [] [(''y'', Ptree ''1'' [], 0)], 0)]])"
    by (simp add: PyPropertyTree__nb_or_def deref_def new_ptree_def assign_def ptree_put_child_def
      force_path.simps [of "''x.y''"] force_path.simps [of "''y''"] path_single_def path_sep_def
      path_reduce_def ptree_find_def positions_def put_last_def ptree_push_back_def next_seq_def
      ptree_empty_def key_def subtree_def put_key_def PyPropertyTree_New_def)
  have 2: "put_key ''x.y'' (Ptree ''1'' []) (Ptree [] []) = Ptree [] [(''x.y'', Ptree ''1'' [], 0)]"
    by (simp add: put_key_def ptree_find_def positions_def ptree_push_back_def next_seq_def)
  have put_xy: "ptree_put_child ''x.y'' (Ptree ''1'' [])
        (Ptree [] [(''x.y'', Ptree ''1'' [], 0), (''x'', Ptree ''old'' [], Suc 0)]) =
      (Ptree [] [(''x.y'', Ptree ''1'' [], 0), (''x'', Ptree ''old'' [(''y'', Ptree ''1'' [], 0)], Suc 0)],
       [1, 0])"
    by (simp add: ptree_put_child_def force_path.simps [of "''x.y''"] force_path.simps [of "''y''"]
        path_single_def path_sep_def path_reduce_def ptree_find_def positions_def
        first_inserted_def put_last_def ptree_push_back_def next_seq_def set_subtree_def
        key_def subtree_def seq_def)
  have put_x: "ptree_put_child ''x'' v (Ptree [] [(''x.y'', Ptree ''1'' [], 0), (''x'', w, Suc 0)]) =
      (Ptree [] [(''x.y'', Ptree ''1'' [], 0), (''x'', v, Suc 0)], [1])" for v w
    by (simp add: ptree_put_child_def force_path.simps [of "''x''"]
        path_single_def path_sep_def path_reduce_def ptree_find_def positions_def
        first_inserted_def put_last_def set_subtree_def key_def subtree_def seq_def)
  have 3: "PyPropertyTree__nb_inplace_or
     [Ptree [] [(''x.y'', Ptree ''1'' [], 0), (''x'', Ptree ''old'' [], 1)]]
     \<lparr>obj = (0, []), flags = PTREE_FLAG_NONE\<rparr>
     (PyTree \<lparr>obj = (0, []), flags = PTREE_FLAG_NONE\<rparr> :: (unit, PyPropertyTree) pyobj) =
     Some (Result \<lparr>obj = (0, []), flags = PTREE_FLAG_NONE\<rparr>,
           [Ptree [] [(''x.y'', Ptree ''1'' [], 0),
                      (''x'', Ptree ''old'' [(''y'', Ptree ''1'' [], 0)], 1)]])"
  proof -
    have s2: "inplace_or_loop
          [Ptree [] [(''x.y'', Ptree ''1'' [], 0),
                     (''x'', Ptree ''old'' [(''y'', Ptree ''1'' [], 0)], Suc 0)]]
          (0, []) (0, []) (Suc (Suc 0)) =
        Some [Ptree [] [(''x.y'', Ptree ''1'' [], 0),
                        (''x'', Ptree ''old'' [(''y'', Ptree ''1'' [], 0)], Suc 0)]]"
      by (subst inplace_or_loop.simps) (simp add: deref_def)
    have s1: "inplace_or_loop
          [Ptree [] [(''x.y'', Ptree ''1'' [], 0),
                     (''x'', Ptree ''old'' [(''y'', Ptree ''1'' [], 0)], Suc 0)]]
          (0, []) (0, []) (Suc 0) =
        Some [Ptree [] [(''x.y'', Ptree ''1'' [], 0),
                        (''x'', Ptree ''old'' [(''y'', Ptree ''1'' [], 0)], Suc 0)]]"
      by (subst inplace_or_loop.simps)
         (simp add: deref_def assign_def replaces_def put_x key_def subtree_def s2)
    have s0: "inplace_or_loop
          [Ptree [] [(''x.y'', Ptree ''1'' [], 0), (''x'', Ptree ''old'' [], Suc 0)]]
          (0, []) (0, []) 0 =
        Some [Ptree [] [(''x.y'', Ptree ''1'' [], 0),
                        (''x'', Ptree ''old'' [(''y'', Ptree ''1'' [], 0)], Suc 0)]]"
      by (subst inplace_or_loop.simps)
         (simp add: deref_def assign_def replaces_def put_xy key_def subtree_def s1)
    show ?thesis
      by (simp add: PyPropertyTree__nb_inplace_or_def s0)
  qed
  have 4: "merged (Ptree [] [(''x.y'', Ptree ''1'' [], 0), (''x'', Ptree ''old'' [], 1)])
          (Ptree [] [(''x.y'', Ptree ''1'' [], 0), (''x'', Ptree ''old'' [], 1)]) =
     Ptree [] [(''x.y'', Ptree ''1'' [], 0), (''x'', Ptree ''old'' [], 1)]"
    by (simp add: merged_def put_xy put_x key_def subtree_def)
  have put_y: "ptree_put_child ''y'' v (Ptree [] []) = (Ptree [] [(''y'', v, 0)], [0])" for v
    by (simp add: ptree_put_child_def force_path.simps [of "''y''"]
        path_single_def path_sep_def path_reduce_def ptree_find_def positions_def
        put_last_def ptree_push_back_def next_seq_def)
  have put_x': "ptree_put_child ''x'' v (Ptree [] [(''y'', w, 0)]) =
      (Ptree [] [(''y'', w, 0), (''x'', v, Suc 0)], [1])" for v w
    by (simp add: ptree_put_child_def force_path.simps [of "''x''"]
        path_single_def path_sep_def path_reduce_def ptree_find_def positions_def
        put_last_def ptree_push_back_def next_seq_def key_def seq_def)
  have 5: "PyPropertyTree__nb_inplace_or
     [Ptree [] [(''y'', Ptree ''1'' [], 0), (''x'', Ptree [] [], 1)]]
     \<lparr>obj = (0, [1]), flags = PTREE_FLAG_OBJECT_NOT_OWNED\<rparr>
     (PyTree \<lparr>obj = (0, []), flags = PTREE_FLAG_NONE\<rparr> :: (unit, PyPropertyTree) pyobj) =
     Some (Result \<lparr>obj = (0, [1]), flags = PTREE_FLAG_OBJECT_NOT_OWNED\<rparr>,
           [Ptree [] [(''y'', Ptree ''1'' [], 0),
                      (''x'', Ptree [] [(''y'', Ptree ''1'' [], 0),
                                        (''x'', Ptree [] [(''y'', Ptree ''1'' [], 0)], 1)], 1)]])"
  proof -
    have s2: "inplace_or_loop
          [Ptree [] [(''y'', Ptree ''1'' [], 0),
                     (''x'', Ptree [] [(''y'', Ptree ''1'' [], 0),
                                       (''x'', Ptree [] [(''y'', Ptree ''1'' [], 0)], Suc 0)], Suc 0)]]
          (0, [Suc 0]) (0, []) (Suc (Suc 0)) =
        Some [Ptree [] [(''y'', Ptree ''1'' [], 0),
                        (''x'', Ptree [] [(''y'', Ptree ''1'' [], 0),
                                          (''x'', Ptree [] [(''y'', Ptree ''1'' [], 0)], Suc 0)], Suc 0)]]"
      by (subst inplace_or_loop.simps) (simp add: deref_def)
    have s1: "inplace_or_loop
          [Ptree [] [(''y'', Ptree ''1'' [], 0), (''x'', Ptree [] [(''y'', Ptree ''1'' [], 0)], Suc 0)]]
          (0, [Suc 0]) (0, []) (Suc 0) =
        Some [Ptree [] [(''y'', Ptree ''1'' [], 0),
                        (''x'', Ptree [] [(''y'', Ptree ''1'' [], 0),
                                          (''x'', Ptree [] [(''y'', Ptree ''1'' [], 0)], Suc 0)], Suc 0)]]"
      by (subst inplace_or_loop.simps)
         (simp add: deref_def assign_def replaces_def put_x' key_def subtree_def seq_def
            set_subtree_def s2)
    have s0: "inplace_or_loop
          [Ptree [] [(''y'', Ptree ''1'' [], 0), (''x'', Ptree [] [], Suc 0)]]
          (0, [Suc 0]) (0, []) 0 =
        Some [Ptree [] [(''y'', Ptree ''1'' [], 0),
                        (''x'', Ptree [] [(''y'', Ptree ''1'' [], 0),
                                          (''x'', Ptree [] [(''y'', Ptree ''1'' [], 0)], Suc 0)], Suc 0)]]"
      by (subst inplace_or_loop.simps)
         (simp add: deref_def assign_def replaces_def put_y key_def subtree_def seq_def
            set_subtree_def s1)
    show ?thesis
      by (simp add: PyPropertyTree__nb_inplace_or_def s0)
  qed
  have 6: "merged (Ptree [] []) (Ptree [] [(''y'', Ptree ''1'' [], 0), (''x'', Ptree [] [], 1)]) =
     Ptree [] [(''y'', Ptree ''1'' [], 0), (''x'', Ptree [] [], 1)]"
    by (simp add: merged_def put_y put_x' key_def subtree_def)
  have put_x'': "ptree_put_child ''x'' v (Ptree [] [(''x'', w, 0)]) = (Ptree [] [(''x'', v, 0)], [0])"
    for v w
    by (simp add: ptree_put_child_def force_path.simps [of "''x''"]
        path_single_def path_sep_def path_reduce_def ptree_find_def positions_def
        first_inserted_def put_last_def set_subtree_def key_def subtree_def seq_def)
  have 7: "PyPropertyTree__nb_inplace_or
     [Ptree [] [(''x'', Ptree [] [(''x'', Ptree ''1'' [], 0)], 0)]]
     \<lparr>obj = (0, []), flags = PTREE_FLAG_NONE\<rparr>
     (PyTree \<lparr>obj = (0, [0]), flags = PTREE_FLAG_OBJECT_NOT_OWNED\<rparr> :: (unit, PyPropertyTree) pyobj) =
     None"
  proof -
    have "inplace_or_loop [Ptree [] [(''x'', Ptree [] [(''x'', Ptree ''1'' [], 0)], 0)]]
        (0, []) (0, [0]) 0 = None"
      by (subst inplace_or_loop.simps)
         (simp add: deref_def replaces_def put_x'' key_def subtree_def)
    then show ?thesis
      by (simp add: PyPropertyTree__nb_inplace_or_def)
  qed
  show ?thesis
    by (intro conjI) (fact 1 2 3 4 5 6 7)+
qed

end
